theory Spec2Isabelle
  imports Complex_Main "HOL-Library.Sublist"
begin

section \<open>Data model (src/types.ts)\<close>

text \<open>
  JavaScript numbers are modelled as mathematical numbers: grid rows, columns, sizes and
  scores as \<open>int\<close>, pixel coordinates as \<open>real\<close> (rounding of doubles is not modelled).
  Strings are byte lists; the object identity of a bubble is its index in the bubble array.
\<close>

datatype BubbleColor = Red | Blue | Green | Yellow | Purple | Orange

datatype PowerUp = Bomb | Rainbow

record Bubble =
  bid :: string
  row :: int
  col :: int
  x :: real
  y :: real
  color :: BubbleColor
  active :: bool
  powerUp :: "PowerUp option"

record Point =
  px :: real
  py :: real

section \<open>Configuration constants (GeminiSlingshot.tsx, lines 15-57)\<close>

definition BUBBLE_RADIUS :: real where
  "BUBBLE_RADIUS = 22"

definition ROW_HEIGHT :: real where
  "ROW_HEIGHT = BUBBLE_RADIUS * sqrt 3"

definition GRID_COLS :: int where
  "GRID_COLS = 12"

definition MAX_ROWS_LIMIT :: int where
  "MAX_ROWS_LIMIT = 11"

fun points :: "BubbleColor \<Rightarrow> int" where
  "points Red = 100"
| "points Blue = 150"
| "points Green = 200"
| "points Yellow = 250"
| "points Purple = 300"
| "points Orange = 500"

text \<open>\<open>isNeighbor\<close>: Euclidean distance below 2.2 radii.\<close>

definition isNeighbor :: "Bubble \<Rightarrow> Bubble \<Rightarrow> bool" where
  "isNeighbor b1 b2 =
     (let dist = sqrt ((x b1 - x b2) ^ 2 + (y b1 - y b2) ^ 2)
      in dist < BUBBLE_RADIUS * 2.2)"

text \<open>\<open>getBubblePos(row, col, width)\<close>: the pixel centre of a grid cell.\<close>

definition getBubblePos :: "int \<Rightarrow> int \<Rightarrow> real \<Rightarrow> Point" where
  "getBubblePos r c width =
     (let xOffset = (width - (of_int GRID_COLS * BUBBLE_RADIUS * 2)) / 2 + BUBBLE_RADIUS;
          isOdd = (r mod 2 \<noteq> 0)
      in \<lparr> px = xOffset + of_int c * (BUBBLE_RADIUS * 2) + (if isOdd then BUBBLE_RADIUS else 0),
           py = BUBBLE_RADIUS + of_int r * ROW_HEIGHT \<rparr>)"

section \<open>Cluster / match engine: \<open>checkMatches\<close> (lines 503-519)\<close>

text \<open>
  The traversal state is the stack \<open>toCheck\<close> (its top is the last element, as
  \<open>pop\<close> and \<open>push\<close> work at the end of the array), the set \<open>visited\<close> of ids and
  the array \<open>matches\<close>. Bubbles are referred to by their index in \<open>bubbles.current\<close>.
\<close>

definition matchesTarget :: "BubbleColor \<Rightarrow> Bubble \<Rightarrow> bool" where
  "matchesTarget targetColor current =
     (color current = targetColor \<or> powerUp current = Some Rainbow)"

definition activeNeighbors :: "Bubble list \<Rightarrow> string set \<Rightarrow> Bubble \<Rightarrow> nat list" where
  "activeNeighbors bubbles visited current =
     filter (\<lambda>j. active (bubbles ! j) \<and> bid (bubbles ! j) \<notin> visited
                   \<and> isNeighbor current (bubbles ! j)) [0..<length bubbles]"

function checkLoop ::
  "Bubble list \<Rightarrow> BubbleColor \<Rightarrow> nat list \<Rightarrow> string set \<Rightarrow> nat list \<Rightarrow> nat list" where
  "checkLoop bubbles targetColor toCheck visited matches =
     (if toCheck = [] then matches
      else
        let current = last toCheck; rest = butlast toCheck in
        if bid (bubbles ! current) \<in> visited
        then checkLoop bubbles targetColor rest visited matches
        else
          let visited' = insert (bid (bubbles ! current)) visited in
          if matchesTarget targetColor (bubbles ! current)
          then checkLoop bubbles targetColor
                 (rest @ activeNeighbors bubbles visited' (bubbles ! current))
                 visited' (matches @ [current])
          else checkLoop bubbles targetColor rest visited' matches)"
  by pat_completeness auto

definition pendingIds :: "Bubble list \<Rightarrow> nat list \<Rightarrow> string set \<Rightarrow> string set" where
  "pendingIds bubbles toCheck visited =
     (\<lambda>j. bid (bubbles ! j)) ` ({..<length bubbles} \<union> set toCheck) - visited"

lemma finite_pendingIds: "finite (pendingIds bubbles toCheck visited)"
  by (simp add: pendingIds_def)

lemma set_activeNeighbors: "set (activeNeighbors bubbles visited current) \<subseteq> {..<length bubbles}"
  by (auto simp: activeNeighbors_def)

lemma pendingIds_pop:
  assumes "toCheck \<noteq> []"
  shows "pendingIds bubbles (butlast toCheck) visited \<subseteq> pendingIds bubbles toCheck visited"
  using assms by (auto simp: pendingIds_def dest: in_set_butlastD)

lemma pendingIds_visit:
  assumes "toCheck \<noteq> []" and "bid (bubbles ! last toCheck) \<notin> visited"
    and "set extra \<subseteq> {..<length bubbles}"
  shows "pendingIds bubbles (butlast toCheck @ extra) (insert (bid (bubbles ! last toCheck)) visited)
           \<subset> pendingIds bubbles toCheck visited"
proof -
  let ?c = "bid (bubbles ! last toCheck)"
  have in_old: "?c \<in> pendingIds bubbles toCheck visited"
    using assms(1,2) by (auto simp: pendingIds_def)
  have not_new: "?c \<notin> pendingIds bubbles (butlast toCheck @ extra) (insert ?c visited)"
    by (simp add: pendingIds_def)
  have sub: "pendingIds bubbles (butlast toCheck @ extra) (insert ?c visited)
               \<subseteq> pendingIds bubbles toCheck visited"
    using assms(3) by (auto simp: pendingIds_def dest: in_set_butlastD)
  from in_old not_new sub show ?thesis by blast
qed

termination checkLoop
proof (relation "measures [\<lambda>(bubbles, targetColor, toCheck, visited, matches).
                              card (pendingIds bubbles toCheck visited),
                            \<lambda>(bubbles, targetColor, toCheck, visited, matches). length toCheck]",
       goal_cases)
  case 1
  show ?case by simp
next
  case (2 bubbles targetColor toCheck visited matches current rest)
  then have "card (pendingIds bubbles (butlast toCheck) visited)
               \<le> card (pendingIds bubbles toCheck visited)"
    by (intro card_mono finite_pendingIds pendingIds_pop)
  with 2 show ?case by (cases toCheck rule: rev_cases) auto
next
  case (3 bubbles targetColor toCheck visited matches current rest visited')
  have "card (pendingIds bubbles
                (butlast toCheck @ activeNeighbors bubbles visited' (bubbles ! current))
                (insert (bid (bubbles ! last toCheck)) visited))
               < card (pendingIds bubbles toCheck visited)"
    using 3 by (intro psubset_card_mono finite_pendingIds pendingIds_visit set_activeNeighbors) auto
  with 3 show ?case by simp
next
  case (4 bubbles targetColor toCheck visited matches current rest visited')
  have "card (pendingIds bubbles (butlast toCheck @ []) (insert (bid (bubbles ! last toCheck)) visited))
               < card (pendingIds bubbles toCheck visited)"
    using 4 by (intro psubset_card_mono finite_pendingIds pendingIds_visit) auto
  with 4 show ?case by simp
qed

declare checkLoop.simps [simp del]

text \<open>
  \<open>checkMatches(startBubble)\<close> on the state \<open>(bubbles.current, scoreRef.current)\<close>; the
  result is the new state and the returned flag. Sound effects and particles are left out.
\<close>

definition deactivate :: "Bubble list \<Rightarrow> nat \<Rightarrow> Bubble list" where
  "deactivate bubbles i = bubbles[i := (bubbles ! i)\<lparr>active := False\<rparr>]"

definition checkMatches :: "Bubble list \<Rightarrow> int \<Rightarrow> nat \<Rightarrow> Bubble list \<times> int \<times> bool" where
  "checkMatches bubbles score startBubble =
     (let targetColor = color (bubbles ! startBubble);
          matches = checkLoop bubbles targetColor [startBubble] {} []
      in if length matches \<ge> 3
         then
           let basePoints = points targetColor;
               pts = foldl (\<lambda>p b. p + basePoints) 0 matches;
               bubbles' = foldl deactivate bubbles matches;
               multiplier = (if length matches > 3 then 1.5 else 1.0 :: real)
           in (bubbles', score + \<lfloor>of_int pts * multiplier\<rfloor>, True)
         else (bubbles, score, False))"

text \<open>
  \<open>recolor bubbles j c\<close> is the board with bubble \<open>j\<close> painted \<open>c\<close>; it serves to state
  that a result does not depend on the colour a bubble carries.
\<close>

definition recolor :: "Bubble list \<Rightarrow> nat \<Rightarrow> BubbleColor \<Rightarrow> Bubble list" where
  "recolor bubbles j c = bubbles[j := (bubbles ! j)\<lparr>color := c\<rparr>]"

text \<open>A board used in the examples: three touching bubbles in row 0, the middle one a rainbow.\<close>

definition board3 :: "Bubble list" where
  "board3 = [\<lparr>bid = ''0-0-1'', row = 0, col = 0, x = 258, y = 22, color = Red, active = True, powerUp = None\<rparr>,
             \<lparr>bid = ''0-1-1'', row = 0, col = 1, x = 302, y = 22, color = Blue, active = True, powerUp = Some Rainbow\<rparr>,
             \<lparr>bid = ''0-2-2'', row = 0, col = 2, x = 346, y = 22, color = Red, active = True, powerUp = None\<rparr>]"

text \<open>A second board: four touching red bubbles in row 0 and a blue bubble apart from them.\<close>

definition board4 :: "Bubble list" where
  "board4 = [\<lparr>bid = ''0-0-1'', row = 0, col = 0, x = 258, y = 22, color = Red, active = True, powerUp = None\<rparr>,
             \<lparr>bid = ''0-1-1'', row = 0, col = 1, x = 302, y = 22, color = Red, active = True, powerUp = None\<rparr>,
             \<lparr>bid = ''0-2-1'', row = 0, col = 2, x = 346, y = 22, color = Red, active = True, powerUp = None\<rparr>,
             \<lparr>bid = ''0-3-2'', row = 0, col = 3, x = 390, y = 22, color = Red, active = True, powerUp = None\<rparr>,
             \<lparr>bid = ''0-6-1'', row = 0, col = 6, x = 522, y = 22, color = Blue, active = True, powerUp = None\<rparr>]"

section \<open>\<open>Array.prototype.sort\<close> with a comparator\<close>

text \<open>
  The built-in sort is modelled as an insertion sort: the elements are taken from left to
  right, and each is placed before the first element of the sorted prefix that the
  comparator puts after it (\<open>cmp x e < 0\<close>). For a consistent comparator this is the stable
  sort the language prescribes.
\<close>

fun insertBy :: "('a \<Rightarrow> 'a \<Rightarrow> real) \<Rightarrow> 'a \<Rightarrow> 'a list \<Rightarrow> 'a list" where
  "insertBy cmp a [] = [a]"
| "insertBy cmp a (e # es) = (if cmp a e < 0 then a # e # es else e # insertBy cmp a es)"

definition sortBy :: "('a \<Rightarrow> 'a \<Rightarrow> real) \<Rightarrow> 'a list \<Rightarrow> 'a list" where
  "sortBy cmp xs = foldl (\<lambda>acc a. insertBy cmp a acc) [] xs"

section \<open>Target candidate enumerator (lines 453-501)\<close>

record TargetCandidate =
  c_id :: string
  c_color :: string
  c_size :: int
  c_row :: int
  c_col :: int
  c_pointsPerBubble :: int
  c_description :: string
  c_powerUp :: "PowerUp option"

text \<open>The keys of \<open>COLOR_CONFIG\<close>: the string a \<open>BubbleColor\<close> is at run time.\<close>

fun colorKey :: "BubbleColor \<Rightarrow> string" where
  "colorKey Red = ''red''"
| "colorKey Blue = ''blue''"
| "colorKey Green = ''green''"
| "colorKey Yellow = ''yellow''"
| "colorKey Purple = ''purple''"
| "colorKey Orange = ''orange''"

text \<open>
  \<open>isPathClear(target)\<close>: the segment from the anchor to the target is sampled at
  \<open>i / steps\<close> for \<open>1 \<le> i < steps - 2\<close>; an active bubble other than the target within
  1.8 radii of a sample blocks the path. The anchor is a parameter: \<open>anchorPos.current\<close>
  always holds a point, so the guard on its absence never fires.
\<close>

definition sampleFree :: "Bubble list \<Rightarrow> Bubble \<Rightarrow> real \<Rightarrow> real \<Rightarrow> bool" where
  "sampleFree bubbles target cx cy =
     list_all (\<lambda>b. if \<not> active b \<or> bid b = bid target then True
                    else let distSq = (cx - x b) ^ 2 + (cy - y b) ^ 2
                         in \<not> distSq < (BUBBLE_RADIUS * 1.8) ^ 2) bubbles"

definition isPathClear :: "Point \<Rightarrow> Bubble list \<Rightarrow> Bubble \<Rightarrow> bool" where
  "isPathClear anchor bubbles target =
     (let startX = px anchor; startY = py anchor;
          endX = x target; endY = y target;
          dx = endX - startX; dy = endY - startY;
          distance = sqrt (dx * dx + dy * dy);
          steps = \<lceil>distance / (BUBBLE_RADIUS / 2)\<rceil>
      in list_all (\<lambda>i. let t = of_int i / of_int steps;
                          cx = startX + dx * t; cy = startY + dy * t
                      in sampleFree bubbles target cx cy) [1..steps - 3])"

text \<open>
  The breadth-first search of one cluster: \<open>queue.shift()\<close> takes the head, the unvisited
  neighbours of the cluster's colour (or rainbow) are marked visited and appended.
\<close>

definition clusterNeighbors ::
  "Bubble list \<Rightarrow> BubbleColor \<Rightarrow> string set \<Rightarrow> Bubble \<Rightarrow> Bubble list" where
  "clusterNeighbors activeBubbles clr visited cur =
     filter (\<lambda>n. bid n \<notin> visited \<and> (color n = clr \<or> powerUp n = Some Rainbow)
                   \<and> isNeighbor cur n) activeBubbles"

function bfsLoop ::
  "Bubble list \<Rightarrow> BubbleColor \<Rightarrow> Bubble list \<Rightarrow> string set \<Rightarrow> Bubble list \<Rightarrow> bool
     \<Rightarrow> string set \<times> Bubble list \<times> bool" where
  "bfsLoop activeBubbles clr queue visited clusterMembers hasRainbow =
     (case queue of
        [] \<Rightarrow> (visited, clusterMembers, hasRainbow)
      | cur # rest \<Rightarrow>
          let neighbors = clusterNeighbors activeBubbles clr visited cur
          in bfsLoop activeBubbles clr (rest @ neighbors) (visited \<union> bid ` set neighbors)
               (clusterMembers @ [cur])
               (hasRainbow \<or> list_ex (\<lambda>n. powerUp n = Some Rainbow) neighbors))"
  by pat_completeness auto

lemma clusterNeighbors_fresh:
  assumes "clusterNeighbors activeBubbles clr visited cur \<noteq> []"
  shows "bid ` set activeBubbles - (visited \<union> bid ` set (clusterNeighbors activeBubbles clr visited cur))
           \<subset> bid ` set activeBubbles - visited"
proof -
  from assms obtain n where n: "n \<in> set (clusterNeighbors activeBubbles clr visited cur)"
    by (cases "clusterNeighbors activeBubbles clr visited cur") auto
  then have "n \<in> set activeBubbles" "bid n \<notin> visited"
    by (auto simp: clusterNeighbors_def)
  with n show ?thesis by blast
qed

termination bfsLoop
proof (relation "measures [\<lambda>(activeBubbles, clr, queue, visited, clusterMembers, hasRainbow).
                              card (bid ` set activeBubbles - visited),
                            \<lambda>(activeBubbles, clr, queue, visited, clusterMembers, hasRainbow).
                              length queue]",
       goal_cases)
  case 1
  show ?case by simp
next
  case (2 activeBubbles clr queue visited clusterMembers hasRainbow cur rest neighbors)
  show ?case
  proof (cases "neighbors = []")
    case True
    with 2 show ?thesis by simp
  next
    case False
    with 2 have ne: "clusterNeighbors activeBubbles clr visited cur \<noteq> []" by simp
    have "card (bid ` set activeBubbles - (visited \<union> bid ` set neighbors))
                   < card (bid ` set activeBubbles - visited)"
      unfolding 2(2) by (intro psubset_card_mono clusterNeighbors_fresh[OF ne]) simp
    then show ?thesis by simp
  qed
qed

declare bfsLoop.simps [simp del]

text \<open>What the enumerator pushes for a reachable bomb and for a cluster with a hittable member.\<close>

definition bombCandidate :: "Bubble \<Rightarrow> TargetCandidate" where
  "bombCandidate b =
     \<lparr> c_id = bid b, c_color = ''red'', c_size = 10, c_row = row b, c_col = col b,
       c_pointsPerBubble = 500, c_description = ''BOMB'', c_powerUp = Some Bomb \<rparr>"

definition clusterCandidate ::
  "real \<Rightarrow> BubbleColor \<Rightarrow> Bubble list \<Rightarrow> bool \<Rightarrow> Bubble \<Rightarrow> TargetCandidate" where
  "clusterCandidate logicalWidth clr clusterMembers hasRainbow hittableMember =
     (let xPct = x hittableMember / logicalWidth;
          desc = (if xPct < 0.33 then ''Left'' else if xPct > 0.66 then ''Right'' else ''Center'')
      in \<lparr> c_id = bid hittableMember, c_color = colorKey clr,
           c_size = int (length clusterMembers),
           c_row = row hittableMember, c_col = col hittableMember,
           c_pointsPerBubble = points clr, c_description = desc,
           c_powerUp = (if hasRainbow then Some Rainbow else None) \<rparr>)"

text \<open>
  Lines 492-497: the members are sorted by descending \<open>y\<close> (bottom of the board first) and
  the first one with a clear path is the hittable member; without one nothing is pushed.
\<close>

definition emitCluster ::
  "Point \<Rightarrow> real \<Rightarrow> Bubble list \<Rightarrow> BubbleColor \<Rightarrow> Bubble list \<Rightarrow> bool
     \<Rightarrow> TargetCandidate option" where
  "emitCluster anchor logicalWidth bubbles clr clusterMembers hasRainbow =
     (let sorted = sortBy (\<lambda>a b. y b - y a) clusterMembers
      in case find (isPathClear anchor bubbles) sorted of
           None \<Rightarrow> None
         | Some hittableMember \<Rightarrow>
             Some (clusterCandidate logicalWidth clr clusterMembers hasRainbow hittableMember))"

text \<open>The inner loop over \<open>activeBubbles\<close> for one colour (lines 477-498).\<close>

fun scanBubbles ::
  "Point \<Rightarrow> real \<Rightarrow> Bubble list \<Rightarrow> Bubble list \<Rightarrow> BubbleColor \<Rightarrow> Bubble list
     \<Rightarrow> string set \<Rightarrow> TargetCandidate list \<Rightarrow> TargetCandidate list" where
  "scanBubbles anchor logicalWidth bubbles activeBubbles clr [] visited allClusters = allClusters"
| "scanBubbles anchor logicalWidth bubbles activeBubbles clr (b # rest) visited allClusters =
     (if powerUp b = Some Bomb \<and> bid b \<notin> visited
      then (if isPathClear anchor bubbles b
            then scanBubbles anchor logicalWidth bubbles activeBubbles clr rest
                   (insert (bid b) visited) (allClusters @ [bombCandidate b])
            else scanBubbles anchor logicalWidth bubbles activeBubbles clr rest visited allClusters)
      else if color b \<noteq> clr \<or> bid b \<in> visited
      then scanBubbles anchor logicalWidth bubbles activeBubbles clr rest visited allClusters
      else
        (case bfsLoop activeBubbles clr [b] (insert (bid b) visited) [] False of
           (visited', clusterMembers, hasRainbow) \<Rightarrow>
             (case emitCluster anchor logicalWidth bubbles clr clusterMembers hasRainbow of
                None \<Rightarrow> scanBubbles anchor logicalWidth bubbles activeBubbles clr rest
                          visited' allClusters
              | Some cand \<Rightarrow> scanBubbles anchor logicalWidth bubbles activeBubbles clr rest
                          visited' (allClusters @ [cand]))))"

text \<open>\<open>Array.from(new Set(xs))\<close>: the distinct elements in the order of first occurrence.\<close>

definition uniqueInOrder :: "'a list \<Rightarrow> 'a list" where
  "uniqueInOrder xs = foldl (\<lambda>acc a. if a \<in> set acc then acc else acc @ [a]) [] xs"

definition getAllReachableClusters ::
  "Point \<Rightarrow> real \<Rightarrow> Bubble list \<Rightarrow> TargetCandidate list" where
  "getAllReachableClusters anchor logicalWidth bubbles =
     (let activeBubbles = filter active bubbles;
          uniqueColors = uniqueInOrder (map color activeBubbles)
      in foldl (\<lambda>allClusters clr.
                  scanBubbles anchor logicalWidth bubbles activeBubbles clr activeBubbles {} allClusters)
           [] uniqueColors)"




definition notBomb :: "TargetCandidate \<Rightarrow> bool" where
  "notBomb c = (c_powerUp c \<noteq> Some Bomb)"

text \<open>
  The anchor of the examples: the middle of a board 1000 wide, 120 below the centres of
  row 0.
\<close>

definition rowAnchor :: Point where
  "rowAnchor = \<lparr>px = 500, py = 142\<rparr>"


definition stackBoard :: "Bubble list" where
  "stackBoard = [\<lparr>bid = ''0-5-1'', row = 0, col = 5, x = 478, y = 22, color = Red, active = True, powerUp = None\<rparr>,
                 \<lparr>bid = ''0-6-1'', row = 0, col = 6, x = 522, y = 22, color = Blue, active = True, powerUp = None\<rparr>,
                 \<lparr>bid = ''1-5-1'', row = 1, col = 5, x = 500, y = 22 + 22 * sqrt 3, color = Red, active = True, powerUp = None\<rparr>]"

text \<open>
  Two more boards for the same anchor, with bubbles in columns 5 and 6 of row 0: a red bomb
  beside a blue bubble, and a red bubble followed in the array by a red bomb that touches it.
\<close>

definition bombBoard :: "Bubble list" where
  "bombBoard = [\<lparr>bid = ''0-5-1'', row = 0, col = 5, x = 478, y = 22, color = Red, active = True, powerUp = Some Bomb\<rparr>,
                \<lparr>bid = ''0-6-1'', row = 0, col = 6, x = 522, y = 22, color = Blue, active = True, powerUp = None\<rparr>]"

definition absorbBoard :: "Bubble list" where
  "absorbBoard = [\<lparr>bid = ''0-6-1'', row = 0, col = 6, x = 522, y = 22, color = Red, active = True, powerUp = None\<rparr>,
   \<lparr>bid = ''0-5-1'', row = 0, col = 5, x = 478, y = 22, color = Red, active = True, powerUp = Some Bomb\<rparr>]"

section \<open>Game state and physics (lines 30-46, 275-324, 718-760)\<close>

datatype DifficultyLevel = Easy | Medium | Hard

record DifficultySettings =
  d_rows :: int
  d_dropInterval :: int
  d_aiFrequency :: int
  d_guideLength :: int

fun DIFFICULTIES :: "DifficultyLevel \<Rightarrow> DifficultySettings" where
  "DIFFICULTIES Easy = \<lparr> d_rows = 3, d_dropInterval = 8, d_aiFrequency = 1, d_guideLength = 60 \<rparr>"
| "DIFFICULTIES Medium = \<lparr> d_rows = 5, d_dropInterval = 6, d_aiFrequency = 1, d_guideLength = 40 \<rparr>"
| "DIFFICULTIES Hard = \<lparr> d_rows = 6, d_dropInterval = 4, d_aiFrequency = 2, d_guideLength = 15 \<rparr>"

definition GRAVITY :: real where
  "GRAVITY = 0.0"

definition FRICTION :: real where
  "FRICTION = 0.998"

text \<open>The refs of the component that the game logic reads and writes.\<close>

record GameState =
  bubblesRef :: "Bubble list"
  scoreRef :: int
  ballPos :: Point
  ballVel :: Point
  anchorPos :: Point
  isFlying :: bool
  flightStartTime :: real
  logicalWidthRef :: real
  logicalHeightRef :: real
  selectedColorRef :: BubbleColor
  difficultyRef :: DifficultyLevel
  shotsUntilDropRef :: int
  totalShotsRef :: int
  gameOverRef :: bool
  captureRequestRef :: bool

text \<open>
  \<open>Math.random()\<close> and \<open>Date.now()\<close> are the environment's. \<open>createBubble\<close> receives the
  outcome of its draws: the number that decides the power-up, the palette colour drawn and
  the id string built from the clock and a random number.
\<close>

record Draw =
  d_rand :: real
  d_color :: BubbleColor
  d_id :: string

definition createBubble :: "int \<Rightarrow> int \<Rightarrow> real \<Rightarrow> Draw \<Rightarrow> Bubble" where
  "createBubble r c width draw =
     (let pos = getBubblePos r c width;
          pu = (if d_rand draw < 0.03 then Some Bomb
                else if d_rand draw < 0.05 then Some Rainbow else None)
      in \<lparr> bid = d_id draw, row = r, col = c, x = px pos, y = py pos,
           color = d_color draw, active = True, powerUp = pu \<rparr>)"

text \<open>
  \<open>addCeilingRow\<close> (lines 298-311). The \<open>forEach\<close> moves the active bubbles down one row
  and tracks \<open>maxRow\<close>; then one bubble per column is pushed at row 0. Sounds and the colour
  picker's state are left out.
\<close>

definition shiftDown :: "real \<Rightarrow> Bubble \<Rightarrow> Bubble" where
  "shiftDown width b =
     (let r = row b + 1; pos = getBubblePos r (col b) width
      in b\<lparr> row := r, x := px pos, y := py pos \<rparr>)"

definition ceilingStep :: "real \<Rightarrow> Bubble list \<times> int \<Rightarrow> Bubble \<Rightarrow> Bubble list \<times> int" where
  "ceilingStep width acc b =
     (case acc of (out, maxRow) \<Rightarrow>
        if active b
        then let b' = shiftDown width b
             in (out @ [b'], if row b' > maxRow then row b' else maxRow)
        else (out @ [b], maxRow))"

definition addCeilingRow :: "(int \<Rightarrow> Draw) \<Rightarrow> GameState \<Rightarrow> GameState" where
  "addCeilingRow draws s =
     (case foldl (ceilingStep (logicalWidthRef s)) ([], 0) (bubblesRef s) of
        (moved, maxRow) \<Rightarrow>
          let spawned = map (\<lambda>c. createBubble 0 c (logicalWidthRef s) (draws c)) [0..GRID_COLS - 1]
          in s\<lparr> bubblesRef := moved @ spawned,
                gameOverRef := (if maxRow \<ge> MAX_ROWS_LIMIT then True else gameOverRef s) \<rparr>)"

text \<open>\<open>triggerBomb(bomb)\<close> (lines 313-324).\<close>

definition inBlast :: "Bubble \<Rightarrow> Bubble \<Rightarrow> bool" where
  "inBlast bomb b =
     (let explosionRadius = BUBBLE_RADIUS * 3.5;
          dist = sqrt ((x b - x bomb) ^ 2 + (y b - y bomb) ^ 2)
      in dist \<le> explosionRadius)"

definition bombStep :: "Bubble \<Rightarrow> Bubble list \<times> int \<Rightarrow> Bubble \<Rightarrow> Bubble list \<times> int" where
  "bombStep bomb acc b =
     (case acc of (out, destroyed) \<Rightarrow>
        if \<not> active b then (out @ [b], destroyed)
        else if inBlast bomb b then (out @ [b\<lparr>active := False\<rparr>], destroyed + 1)
        else (out @ [b], destroyed))"

definition triggerBomb :: "Bubble \<Rightarrow> GameState \<Rightarrow> GameState" where
  "triggerBomb bomb s =
     (case foldl (bombStep bomb) ([], 0) (bubblesRef s) of
        (bubbles', destroyed) \<Rightarrow>
          s\<lparr> bubblesRef := bubbles', scoreRef := scoreRef s + destroyed * 50 \<rparr>)"

text \<open>
  The flight of one frame (lines 721-736): \<open>steps\<close> sub-steps, each moving the ball,
  bouncing it off the side walls, and testing the top edge and then the active bubbles in
  array order; the first bubble closer than 1.8 radii decides.
\<close>

datatype Contact = NoContact | HitBomb nat | HitBubble

definition touches :: "Point \<Rightarrow> Bubble \<Rightarrow> bool" where
  "touches pos b =
     (let dist = sqrt ((px pos - x b) ^ 2 + (py pos - y b) ^ 2)
      in dist < BUBBLE_RADIUS * 1.8)"

definition scanContact :: "Point \<Rightarrow> Bubble list \<Rightarrow> Contact" where
  "scanContact pos bubbles =
     (case find (\<lambda>j. active (bubbles ! j) \<and> touches pos (bubbles ! j)) [0..<length bubbles] of
        None \<Rightarrow> NoContact
      | Some j \<Rightarrow> if powerUp (bubbles ! j) = Some Bomb then HitBomb j else HitBubble)"

datatype FlightOutcome =
    Free Point Point
  | Collision Point Point
  | BombHit nat Point Point

definition moveBall :: "real \<Rightarrow> int \<Rightarrow> Point \<Rightarrow> Point \<Rightarrow> Point \<times> Point" where
  "moveBall width steps pos vel =
     (let px1 = px pos + px vel / of_int steps;
          py1 = py pos + py vel / of_int steps
      in if px1 < BUBBLE_RADIUS \<or> px1 > width - BUBBLE_RADIUS
         then (\<lparr> px = max BUBBLE_RADIUS (min (width - BUBBLE_RADIUS) px1), py = py1 \<rparr>,
               vel\<lparr> px := px vel * (- 1) \<rparr>)
         else (\<lparr> px = px1, py = py1 \<rparr>, vel))"

primrec flightSteps ::
  "nat \<Rightarrow> int \<Rightarrow> real \<Rightarrow> Bubble list \<Rightarrow> Point \<Rightarrow> Point \<Rightarrow> FlightOutcome" where
  "flightSteps 0 steps width bubbles pos vel = Free pos vel"
| "flightSteps (Suc n) steps width bubbles pos vel =
     (case moveBall width steps pos vel of
        (pos', vel') \<Rightarrow>
          if py pos' < BUBBLE_RADIUS then Collision pos' vel'
          else (case scanContact pos' bubbles of
                  HitBomb j \<Rightarrow> BombHit j pos' vel'
                | HitBubble \<Rightarrow> Collision pos' vel'
                | NoContact \<Rightarrow> flightSteps n steps width bubbles pos' vel'))"

text \<open>
  Grid snap (lines 740-749): among the cells of rows 0 to 15 that no active bubble
  occupies, the first one nearest to the ball; \<open>bestDist\<close> starts at infinity (\<open>None\<close>).
\<close>

record Best =
  bestDist :: "real option"
  bestRow :: int
  bestCol :: int
  bestX :: real
  bestY :: real

definition snapCells :: "(int \<times> int) list" where
  "snapCells =
     concat (map (\<lambda>r. map (\<lambda>c. (r, c))
                           [0..(if r mod 2 \<noteq> 0 then GRID_COLS - 1 else GRID_COLS) - 1])
                 [0..MAX_ROWS_LIMIT + 5 - 1])"

definition snapStep :: "real \<Rightarrow> Bubble list \<Rightarrow> Point \<Rightarrow> Best \<Rightarrow> int \<times> int \<Rightarrow> Best" where
  "snapStep width bubbles pos best cell =
     (case cell of (r, c) \<Rightarrow>
        let p = getBubblePos r c width;
            occupied = list_ex (\<lambda>b. active b \<and> row b = r \<and> col b = c) bubbles
        in if occupied then best
           else let dist = sqrt ((px pos - px p) ^ 2 + (py pos - py p) ^ 2)
                in if (case bestDist best of None \<Rightarrow> True | Some d \<Rightarrow> dist < d)
                   then \<lparr> bestDist = Some dist, bestRow = r, bestCol = c,
                          bestX = px p, bestY = py p \<rparr>
                   else best)"

definition snapToGrid :: "real \<Rightarrow> Bubble list \<Rightarrow> Point \<Rightarrow> Best" where
  "snapToGrid width bubbles pos =
     foldl (snapStep width bubbles pos)
       \<lparr> bestDist = None, bestRow = 0, bestCol = 0, bestX = 0, bestY = 0 \<rparr> snapCells"

text \<open>What the environment supplies to one frame: the clock and the draws.\<close>

record FrameEnv =
  e_now :: real
  e_newId :: string
  e_draws :: "int \<Rightarrow> Draw"

definition resetBall :: "GameState \<Rightarrow> GameState" where
  "resetBall s = s\<lparr> ballPos := anchorPos s, ballVel := \<lparr> px = 0, py = 0 \<rparr> \<rparr>"

text \<open>
  The settling of a collided ball (lines 739-757): the ball becomes a bubble of the selected
  colour in the nearest free cell, \<open>checkMatches\<close> runs from it, and the shot is counted.
  Sounds and the colour picker's state (\<open>updateAvailableColors\<close>) are left out.
\<close>

definition settle :: "FrameEnv \<Rightarrow> GameState \<Rightarrow> GameState" where
  "settle env s =
     (let best = snapToGrid (logicalWidthRef s) (bubblesRef s) (ballPos s);
          newBubble = \<lparr> bid = e_newId env, row = bestRow best, col = bestCol best,
                        x = bestX best, y = bestY best, color = selectedColorRef s,
                        active = True, powerUp = None \<rparr>;
          pushed = bubblesRef s @ [newBubble]
      in case checkMatches pushed (scoreRef s) (length (bubblesRef s)) of
           (bubbles', score', matched) \<Rightarrow>
             let s1 = s\<lparr> isFlying := False, bubblesRef := bubbles', scoreRef := score' \<rparr>;
                 newTotal = totalShotsRef s1 + 1;
                 s2 = s1\<lparr> totalShotsRef := newTotal \<rparr>;
                 nextDrop = shotsUntilDropRef s2 - 1;
                 s3 = (if nextDrop \<le> 0
                       then (addCeilingRow (e_draws env) s2)
                              \<lparr> shotsUntilDropRef := d_dropInterval (DIFFICULTIES (difficultyRef s2)) \<rparr>
                       else s2\<lparr> shotsUntilDropRef := nextDrop \<rparr>);
                 s4 = (if bestRow best \<ge> MAX_ROWS_LIMIT then s3\<lparr> gameOverRef := True \<rparr> else s3);
                 s5 = resetBall s4
             in if newTotal mod d_aiFrequency (DIFFICULTIES (difficultyRef s5)) = 0
                then s5\<lparr> captureRequestRef := True \<rparr> else s5)"

text \<open>
  The physics update of one frame while the ball flies (lines 718-760). A bomb hit returns
  from the frame handler at once.
\<close>

definition applyFriction :: "Point \<Rightarrow> Point" where
  "applyFriction vel = \<lparr> px = px vel * FRICTION, py = (py vel + GRAVITY) * FRICTION \<rparr>"

definition physicsUpdate :: "FrameEnv \<Rightarrow> GameState \<Rightarrow> GameState" where
  "physicsUpdate env s =
     (if \<not> isFlying s then s
      else if e_now env - flightStartTime s > 5000
      then (resetBall s)\<lparr> isFlying := False \<rparr>
      else
        let currentSpeed = sqrt (px (ballVel s) ^ 2 + py (ballVel s) ^ 2);
            steps = \<lceil>currentSpeed / (BUBBLE_RADIUS * 0.8)\<rceil>
        in case flightSteps (nat steps) steps (logicalWidthRef s) (bubblesRef s) (ballPos s) (ballVel s) of
             BombHit j pos vel \<Rightarrow>
               resetBall ((triggerBomb (bubblesRef s ! j) (s\<lparr> ballPos := pos, ballVel := vel \<rparr>))
                            \<lparr> isFlying := False \<rparr>)
           | Collision pos vel \<Rightarrow>
               let s1 = settle env (s\<lparr> ballPos := pos, ballVel := applyFriction vel \<rparr>)
               in if py (ballPos s1) > logicalHeightRef s1
                  then (resetBall s1)\<lparr> isFlying := False \<rparr> else s1
           | Free pos vel \<Rightarrow>
               let s1 = s\<lparr> ballPos := pos, ballVel := applyFriction vel \<rparr>
               in if py (ballPos s1) > logicalHeightRef s1
                  then (resetBall s1)\<lparr> isFlying := False \<rparr> else s1)"

text \<open>
  What the two \<open>forEach\<close> loops do to a single bubble, and the row \<open>addCeilingRow\<close> pushes;
  the lemmas below show that the loops compute these.
\<close>

definition blasted :: "Bubble \<Rightarrow> Bubble \<Rightarrow> Bubble" where
  "blasted bomb b = (if active b \<and> inBlast bomb b then b\<lparr>active := False\<rparr> else b)"

definition lowered :: "real \<Rightarrow> Bubble \<Rightarrow> Bubble" where
  "lowered width b = (if active b then shiftDown width b else b)"

definition topRow :: "(int \<Rightarrow> Draw) \<Rightarrow> real \<Rightarrow> Bubble list" where
  "topRow draws width = map (\<lambda>c. createBubble 0 c width (draws c)) [0..GRID_COLS - 1]"

text \<open>
  States used in the examples: a ball about to reach a bomb in row 0; a board whose lowest
  bubble is in row 10, one shot before the ceiling drops.
\<close>

definition flightSetup :: GameState where
  "flightSetup =
     \<lparr> bubblesRef =
         [\<lparr>bid = ''0-5-1'', row = 0, col = 5, x = 478, y = 22, color = Red, active = True, powerUp = Some Bomb\<rparr>,
          \<lparr>bid = ''0-6-1'', row = 0, col = 6, x = 522, y = 22, color = Blue, active = True, powerUp = None\<rparr>,
          \<lparr>bid = ''0-0-1'', row = 0, col = 0, x = 258, y = 22, color = Green, active = True, powerUp = None\<rparr>],
       scoreRef = 0,
       ballPos = \<lparr>px = 478, py = 70\<rparr>, ballVel = \<lparr>px = 0, py = - 22\<rparr>,
       anchorPos = \<lparr>px = 500, py = 142\<rparr>,
       isFlying = True, flightStartTime = 0,
       logicalWidthRef = 1000, logicalHeightRef = 362,
       selectedColorRef = Red, difficultyRef = Medium,
       shotsUntilDropRef = 6, totalShotsRef = 0,
       gameOverRef = False, captureRequestRef = False \<rparr>"

definition frameEnv :: FrameEnv where
  "frameEnv = \<lparr> e_now = 100, e_newId = ''new'',
                e_draws = (\<lambda>c. \<lparr> d_rand = 0.5, d_color = Red, d_id = ''top'' \<rparr>) \<rparr>"

definition lowBoardState :: GameState where
  "lowBoardState =
     \<lparr> bubblesRef =
         [\<lparr>bid = ''10-5-1'', row = 10, col = 5, x = 478, y = 22 + 10 * ROW_HEIGHT, color = Red, active = True, powerUp = None\<rparr>,
          \<lparr>bid = ''0-6-1'', row = 0, col = 6, x = 522, y = 22, color = Blue, active = False, powerUp = None\<rparr>],
       scoreRef = 0,
       ballPos = \<lparr>px = 500, py = 142\<rparr>, ballVel = \<lparr>px = 0, py = 0\<rparr>,
       anchorPos = \<lparr>px = 500, py = 142\<rparr>,
       isFlying = False, flightStartTime = 0,
       logicalWidthRef = 1000, logicalHeightRef = 362,
       selectedColorRef = Red, difficultyRef = Medium,
       shotsUntilDropRef = 1, totalShotsRef = 5,
       gameOverRef = False, captureRequestRef = False \<rparr>"

definition someDraws :: "int \<Rightarrow> Draw" where
  "someDraws c = \<lparr> d_rand = 0.5, d_color = Green, d_id = ''top'' \<rparr>"

section \<open>Advisor client: \<open>getStrategicHint\<close> (services/geminiService.ts)\<close>

subsection \<open>JavaScript values\<close>

text \<open>
  A number is not-a-number, finite or infinite. A parsed JSON document is a \<open>json\<close> value;
  a property that is absent reads as \<open>undefined\<close>, modelled by \<open>None\<close>.
\<close>

datatype jsnum = NaN | Finite real | PosInfinity | NegInfinity

datatype json =
    JNull
  | JBool bool
  | JNum jsnum
  | JStr string
  | JArr "json list"
  | JObj "(string \<times> json) list"

fun truthy :: "json option \<Rightarrow> bool" where
  "truthy None = False"
| "truthy (Some JNull) = False"
| "truthy (Some (JBool b)) = b"
| "truthy (Some (JNum n)) = (n \<noteq> NaN \<and> n \<noteq> Finite 0)"
| "truthy (Some (JStr s)) = (s \<noteq> [])"
| "truthy (Some (JArr xs)) = True"
| "truthy (Some (JObj kvs)) = True"

text \<open>
  What the language's built-ins do is the environment's: \<open>JSON.parse\<close> (a syntax error's
  message on the left), \<open>Number\<close> applied to a string, an array or an object, the
  message of the \<open>TypeError\<close> that a document raises when it is used as the code uses it,
  and the case mappings \<open>String.prototype.toLowerCase\<close> and \<open>toUpperCase\<close>, which follow
  the Unicode tables.
\<close>

record JsEnv =
  parseJSON :: "string \<Rightarrow> string + json"
  numberOf :: "json \<Rightarrow> jsnum"
  typeErrorMessage :: "json \<Rightarrow> string"
  toLowerCase :: "string \<Rightarrow> string"
  toUpperCase :: "string \<Rightarrow> string"

fun Number :: "JsEnv \<Rightarrow> json option \<Rightarrow> jsnum" where
  "Number env None = NaN"
| "Number env (Some JNull) = Finite 0"
| "Number env (Some (JBool b)) = Finite (if b then 1 else 0)"
| "Number env (Some (JNum n)) = n"
| "Number env (Some v) = numberOf env v"

text \<open>\<open>v || d\<close> for a value read from a document.\<close>

definition orElse :: "json option \<Rightarrow> json \<Rightarrow> json" where
  "orElse v d = (case v of Some m \<Rightarrow> if truthy v then m else d | None \<Rightarrow> d)"

fun getProp :: "json \<Rightarrow> string \<Rightarrow> json option" where
  "getProp (JObj kvs) k = map_of kvs k"
| "getProp v k = None"

text \<open>Strings: \<open>includes\<close> (\<open>str_includes\<close>).\<close>

definition str_includes :: "string \<Rightarrow> string \<Rightarrow> bool" where
  "str_includes s part = sublist part s"

text \<open>The decimal text of an integer, as a template literal prints it.\<close>

fun digits :: "nat \<Rightarrow> string" where
  "digits n =
     (if n < 10 then [''0123456789'' ! n]
      else digits (n div 10) @ [''0123456789'' ! (n mod 10)])"

declare digits.simps [simp del]

definition showInt :: "int \<Rightarrow> string" where
  "showInt i = (if i < 0 then ''-'' @ digits (nat (- i)) else digits (nat i))"

subsection \<open>Hints and the local fallback (lines 31-60)\<close>

record StrategicHint =
  h_message :: json
  h_rationale :: "json option"
  h_targetRow :: "jsnum option"
  h_targetCol :: "jsnum option"
  h_recommendedColor :: "string option"

record DebugInfo =
  dbg_rawResponse :: string
  dbg_error :: "string option"

record AiResponse =
  hint :: StrategicHint
  debug :: DebugInfo

text \<open>
  The comparator handed to \<open>sort\<close>. It puts a bomb before anything, also before another
  bomb, and likewise a rainbow cluster before anything that is not a bomb; which of several
  bombs (or of several rainbow clusters) the sort places first therefore depends on the
  order in which it compares them, not on their score or row.
\<close>

definition compareTargets :: "TargetCandidate \<Rightarrow> TargetCandidate \<Rightarrow> real" where
  "compareTargets a b =
     (if c_powerUp a = Some Bomb then - 1
      else if c_powerUp b = Some Bomb then 1
      else if c_powerUp a = Some Rainbow then - 1
      else if c_powerUp b = Some Rainbow then 1
      else
        let scoreA = c_size a * c_pointsPerBubble a;
            scoreB = c_size b * c_pointsPerBubble b
        in if scoreB \<noteq> scoreA then of_int (scoreB - scoreA)
           else of_int (c_row a - c_row b))"

text \<open>
  \<open>getBestLocalTarget(msg)\<close>. Element 0 of the sorted array exists, since the array is
  non-empty in that branch and sorting keeps its length.
\<close>

definition getBestLocalTarget :: "JsEnv \<Rightarrow> TargetCandidate list \<Rightarrow> string \<Rightarrow> StrategicHint" where
  "getBestLocalTarget env validTargets msg =
     (if length validTargets > 0
      then
        let best = sortBy compareTargets validTargets ! 0;
            message = (if c_powerUp best = Some Bomb then ''Fallback: TRIGGER BOMB!''
                       else ''Fallback: Select '' @ toUpperCase env (c_color best)
                              @ '' at Row '' @ showInt (c_row best))
        in \<lparr> h_message = JStr message,
             h_rationale = Some (JStr ''Selected based on value and strategic priority.''),
             h_targetRow = Some (Finite (of_int (c_row best))),
             h_targetCol = Some (Finite (of_int (c_col best))),
             h_recommendedColor = Some (c_color best) \<rparr>
      else \<lparr> h_message = JStr msg,
             h_rationale = Some (JStr ''No valid clusters found to target.''),
             h_targetRow = None, h_targetCol = None, h_recommendedColor = None \<rparr>)"

subsection \<open>Transport with retries (lines 113-176)\<close>

text \<open>
  What a rejected request carries: \<open>err.status\<close>, \<open>err.response?.status\<close>, \<open>err.message\<close>
  (empty when absent), \<open>err.error\<close> with its \<open>code\<close>, \<open>status\<close> and \<open>message\<close>, and the text
  \<open>JSON.stringify(err)\<close>. A status is absent, a number or a string.
\<close>

datatype jsstatus = NoStatus | StatusNum int | StatusStr string

fun truthyStatus :: "jsstatus \<Rightarrow> bool" where
  "truthyStatus NoStatus = False"
| "truthyStatus (StatusNum n) = (n \<noteq> 0)"
| "truthyStatus (StatusStr s) = (s \<noteq> [])"

record ErrorBody =
  body_code :: jsstatus
  body_status :: jsstatus
  body_message :: string

record ApiError =
  err_status :: jsstatus
  err_responseStatus :: jsstatus
  err_message :: string
  err_error :: "ErrorBody option"
  err_json :: string

definition statusOf :: "ApiError \<Rightarrow> jsstatus" where
  "statusOf err =
     (let status = (if truthyStatus (err_status err) then err_status err
                    else err_responseStatus err)
      in case err_error err of
           None \<Rightarrow> status
         | Some body \<Rightarrow>
             let status1 = (if truthyStatus status then status else body_code body)
             in if \<not> truthyStatus status1 \<and> truthyStatus (body_status body)
                then body_status body else status1)"

definition msgOf :: "ApiError \<Rightarrow> string" where
  "msgOf err =
     (let msg = err_message err
      in case err_error err of
           None \<Rightarrow> msg
         | Some body \<Rightarrow> if msg \<noteq> [] then msg else body_message body)"

definition isQuota :: "ApiError \<Rightarrow> bool" where
  "isQuota err =
     (statusOf err = StatusNum 429 \<or> str_includes (msgOf err) ''429''
      \<or> str_includes (msgOf err) ''Quota'' \<or> str_includes (msgOf err) ''RESOURCE_EXHAUSTED''
      \<or> str_includes (err_json err) ''RESOURCE_EXHAUSTED'')"

definition isOverloaded :: "ApiError \<Rightarrow> bool" where
  "isOverloaded err =
     (statusOf err = StatusNum 503 \<or> str_includes (msgOf err) ''503''
      \<or> str_includes (msgOf err) ''overloaded'' \<or> str_includes (msgOf err) ''UNAVAILABLE''
      \<or> str_includes (err_json err) ''UNAVAILABLE'')"

definition statusText :: "jsstatus \<Rightarrow> string" where
  "statusText status =
     (if truthyStatus status
      then (case status of StatusNum n \<Rightarrow> showInt n | StatusStr s \<Rightarrow> s | NoStatus \<Rightarrow> ''Error'')
      else ''Error'')"

text \<open>The warning sign that opens two of the messages, as its UTF-8 bytes.\<close>

definition warningSign :: string where
  "warningSign = [CHR 0xE2, CHR 0x9A, CHR 0xA0, CHR 0xEF, CHR 0xB8, CHR 0x8F]"

definition serviceIssueResponse :: "JsEnv \<Rightarrow> TargetCandidate list \<Rightarrow> ApiError \<Rightarrow> AiResponse" where
  "serviceIssueResponse env validTargets err =
     \<lparr> hint = getBestLocalTarget env validTargets
                (if isOverloaded err then warningSign @ '' Service Busy: Using Local Strategy''
                 else warningSign @ '' Offline Mode: Quota Exceeded''),
       debug = \<lparr> dbg_rawResponse = [],
                 dbg_error = Some (statusText (statusOf err) @ '': Service Unavailable'') \<rparr> \<rparr>"

text \<open>
  The retry loop. \<open>transport i\<close> is what the \<open>i\<close>-th call of \<open>generateContent\<close> does:
  it responds with \<open>response.text\<close> (possibly undefined) or rejects. The loop's outcome
  records the number of calls made and the delays slept, in milliseconds.
\<close>

datatype Attempt = Responded "string option" | Rejected ApiError

datatype LoopOutcome =
    GotResponse "string option" nat "int list"
  | ServiceIssue ApiError nat "int list"
  | Thrown ApiError nat "int list"
  | NoResponse nat "int list"

definition retries :: nat where
  "retries = 3"

function retryLoop :: "(nat \<Rightarrow> Attempt) \<Rightarrow> nat \<Rightarrow> int \<Rightarrow> int list \<Rightarrow> LoopOutcome" where
  "retryLoop transport i delay slept =
     (if i < retries
      then (case transport i of
              Responded text \<Rightarrow> GotResponse text (i + 1) slept
            | Rejected err \<Rightarrow>
                if isQuota err \<or> isOverloaded err then ServiceIssue err (i + 1) slept
                else if i = retries - 1 then Thrown err (i + 1) slept
                else retryLoop transport (i + 1) (delay * 2) (slept @ [delay]))
      else NoResponse i slept)"
  by pat_completeness auto
termination
  by (relation "measure (\<lambda>(transport, i, delay, slept). retries - i)") auto

declare retryLoop.simps [simp del]

subsection \<open>Response validation (lines 178-215)\<close>

text \<open>\<open>response.text || "{}"\<close>.\<close>

definition bodyOf :: "string option \<Rightarrow> string" where
  "bodyOf responseText = (case responseText of None \<Rightarrow> ''{}'' | Some t \<Rightarrow> if t = [] then ''{}'' else t)"

definition parseErrorResponse :: "JsEnv \<Rightarrow> TargetCandidate list \<Rightarrow> string \<Rightarrow> string \<Rightarrow> AiResponse" where
  "parseErrorResponse env validTargets text emsg =
     \<lparr> hint = getBestLocalTarget env validTargets ''AI response parse error'',
       debug = \<lparr> dbg_rawResponse = text,
                 dbg_error = Some (''JSON Parse Error: '' @ emsg) \<rparr> \<rparr>"

definition invalidResponse :: "JsEnv \<Rightarrow> TargetCandidate list \<Rightarrow> string \<Rightarrow> AiResponse" where
  "invalidResponse env validTargets text =
     \<lparr> hint = getBestLocalTarget env validTargets ''AI returned invalid coordinates'',
       debug = \<lparr> dbg_rawResponse = text,
                 dbg_error = Some ''Invalid Coordinates in JSON'' \<rparr> \<rparr>"

definition validateResponse :: "JsEnv \<Rightarrow> TargetCandidate list \<Rightarrow> string option \<Rightarrow> AiResponse" where
  "validateResponse env validTargets responseText =
     (let text = bodyOf responseText
      in case parseJSON env text of
           Inl emsg \<Rightarrow> parseErrorResponse env validTargets text emsg
         | Inr doc \<Rightarrow>
             if doc = JNull
             then parseErrorResponse env validTargets text (typeErrorMessage env doc)
             else
               let r = Number env (getProp doc ''targetRow'');
                   c = Number env (getProp doc ''targetCol'')
               in if r \<noteq> NaN \<and> c \<noteq> NaN \<and> truthy (getProp doc ''recommendedColor'')
                  then (case getProp doc ''recommendedColor'' of
                          Some (JStr colour) \<Rightarrow>
                            \<lparr> hint =
                                \<lparr> h_message = orElse (getProp doc ''message'')
                                                (JStr ''Good shot available!''),
                                  h_rationale = getProp doc ''rationale'',
                                  h_targetRow = Some r,
                                  h_targetCol = Some c,
                                  h_recommendedColor = Some (toLowerCase env colour) \<rparr>,
                              debug = \<lparr> dbg_rawResponse = text, dbg_error = None \<rparr> \<rparr>
                        | _ \<Rightarrow> parseErrorResponse env validTargets text (typeErrorMessage env doc))
                  else invalidResponse env validTargets text)"

text \<open>The whole call: the response, the number of requests made and the delays slept.\<close>

record Run =
  response :: AiResponse
  attempts :: nat
  sleeps :: "int list"

definition unreachableResponse :: "JsEnv \<Rightarrow> TargetCandidate list \<Rightarrow> string \<Rightarrow> AiResponse" where
  "unreachableResponse env validTargets emsg =
     \<lparr> hint = getBestLocalTarget env validTargets ''AI Service Unreachable'',
       debug = \<lparr> dbg_rawResponse = [],
                 dbg_error = Some (if emsg \<noteq> [] then emsg else ''Unknown API Error'') \<rparr> \<rparr>"

definition getStrategicHint ::
  "JsEnv \<Rightarrow> (nat \<Rightarrow> Attempt) \<Rightarrow> TargetCandidate list \<Rightarrow> Run" where
  "getStrategicHint env transport validTargets =
     (case retryLoop transport 0 1000 [] of
        GotResponse text n slept \<Rightarrow>
          \<lparr> response = validateResponse env validTargets text, attempts = n, sleeps = slept \<rparr>
      | ServiceIssue err n slept \<Rightarrow>
          \<lparr> response = serviceIssueResponse env validTargets err, attempts = n, sleeps = slept \<rparr>
      | Thrown err n slept \<Rightarrow>
          \<lparr> response = unreachableResponse env validTargets (err_message err),
            attempts = n, sleeps = slept \<rparr>
      | NoResponse n slept \<Rightarrow>
          \<lparr> response = unreachableResponse env validTargets (typeErrorMessage env JNull),
            attempts = n, sleeps = slept \<rparr>)"

subsection \<open>Notions used to state the properties\<close>



definition transient :: "Attempt \<Rightarrow> bool" where
  "transient a = (case a of Responded text \<Rightarrow> False
                  | Rejected err \<Rightarrow> \<not> isQuota err \<and> \<not> isOverloaded err)"

fun outcomeAttempts :: "LoopOutcome \<Rightarrow> nat" where
  "outcomeAttempts (GotResponse text n slept) = n"
| "outcomeAttempts (ServiceIssue err n slept) = n"
| "outcomeAttempts (Thrown err n slept) = n"
| "outcomeAttempts (NoResponse n slept) = n"

definition acceptable :: "JsEnv \<Rightarrow> string option \<Rightarrow> bool" where
  "acceptable env reply =
     (\<exists>doc colour. parseJSON env (bodyOf reply) = Inr doc \<and> doc \<noteq> JNull
        \<and> Number env (getProp doc ''targetRow'') \<noteq> NaN
        \<and> Number env (getProp doc ''targetCol'') \<noteq> NaN
        \<and> getProp doc ''recommendedColor'' = Some (JStr colour) \<and> colour \<noteq> [])"

text \<open>
  Examples: the candidate list of the specification's ranking example; a reply without a
  \<open>message\<close>; a reply naming a colour outside the palette and a cell off the board; an
  environment whose parser yields a given document and whose case mappings are given on the
  letters A to Z, which is all that the strings of the examples hold; a quota rejection and
  a network failure.
\<close>

definition exampleTargets :: "TargetCandidate list" where
  "exampleTargets =
     [\<lparr>c_id = ''4-3-1'', c_color = ''red'', c_size = 10, c_row = 4, c_col = 3,
       c_pointsPerBubble = 500, c_description = ''BOMB'', c_powerUp = Some Bomb\<rparr>,
      \<lparr>c_id = ''2-1-1'', c_color = ''orange'', c_size = 2, c_row = 2, c_col = 1,
       c_pointsPerBubble = 500, c_description = ''Left'', c_powerUp = None\<rparr>,
      \<lparr>c_id = ''8-7-1'', c_color = ''red'', c_size = 6, c_row = 8, c_col = 7,
       c_pointsPerBubble = 100, c_description = ''Right'', c_powerUp = None\<rparr>]"




definition noMessageDoc :: json where
  "noMessageDoc = JObj [(''recommendedColor'', JStr ''Red''),
                        (''targetRow'', JNum (Finite 1)), (''targetCol'', JNum (Finite 2))]"

definition offBoardDoc :: json where
  "offBoardDoc = JObj [(''message'', JStr ''Go''), (''rationale'', JStr ''why''),
                       (''recommendedColor'', JStr ''MAGENTA''),
                       (''targetRow'', JNum (Finite 99)), (''targetCol'', JNum (Finite (- 5)))]"

definition asciiLower :: "string \<Rightarrow> string" where
  "asciiLower s =
     map (\<lambda>c. case map_of (zip ''ABCDEFGHIJKLMNOPQRSTUVWXYZ'' ''abcdefghijklmnopqrstuvwxyz'') c of
                 Some d \<Rightarrow> d | None \<Rightarrow> c) s"

definition asciiUpper :: "string \<Rightarrow> string" where
  "asciiUpper s =
     map (\<lambda>c. case map_of (zip ''abcdefghijklmnopqrstuvwxyz'' ''ABCDEFGHIJKLMNOPQRSTUVWXYZ'') c of
                 Some d \<Rightarrow> d | None \<Rightarrow> c) s"

definition stubEnv :: "json \<Rightarrow> JsEnv" where
  "stubEnv doc = \<lparr> parseJSON = (\<lambda>t. if t = ''{}'' then Inr (JObj []) else Inr doc),
                   numberOf = (\<lambda>v. NaN),
                   typeErrorMessage = (\<lambda>v. ''TypeError''),
                   toLowerCase = asciiLower,
                   toUpperCase = asciiUpper \<rparr>"

definition quotaError :: ApiError where
  "quotaError = \<lparr> err_status = StatusNum 429, err_responseStatus = NoStatus,
                   err_message = ''Quota exceeded'', err_error = None, err_json = ''{}'' \<rparr>"

definition networkError :: ApiError where
  "networkError = \<lparr> err_status = NoStatus, err_responseStatus = NoStatus,
                     err_message = ''fetch failed'', err_error = None, err_json = ''{}'' \<rparr>"

section \<open>Properties of the match engine\<close>

lemma foldl_add_const: "foldl (\<lambda>p b. p + k) a ms = a + int (length ms) * (k::int)"
  by (induction ms arbitrary: a) (simp_all add: algebra_simps)

lemma length_deactivate [simp]: "length (deactivate bs i) = length bs"
  by (simp add: deactivate_def)

lemma length_foldl_deactivate [simp]: "length (foldl deactivate bs ms) = length bs"
  by (induction ms arbitrary: bs) simp_all

lemma nth_deactivate:
  "i < length bs \<Longrightarrow>
     deactivate bs m ! i = (if i = m then (bs ! i)\<lparr>active := False\<rparr> else bs ! i)"
  by (simp add: deactivate_def nth_list_update)

lemma nth_foldl_deactivate:
  "i < length bs \<Longrightarrow>
     foldl deactivate bs ms ! i = (if i \<in> set ms then (bs ! i)\<lparr>active := False\<rparr> else bs ! i)"
proof (induction ms arbitrary: bs)
  case Nil
  then show ?case by simp
next
  case (Cons m ms)
  have "foldl deactivate (deactivate bs m) ms ! i =
          (if i \<in> set ms then (deactivate bs m ! i)\<lparr>active := False\<rparr> else deactivate bs m ! i)"
    using Cons.prems by (intro Cons.IH) simp
  then show ?case using Cons.prems
    by (auto simp: nth_deactivate)
qed

lemma checkLoop_bound:
  "set toCheck \<subseteq> {..<length bubbles} \<Longrightarrow> set matches \<subseteq> {..<length bubbles} \<Longrightarrow>
     set (checkLoop bubbles tc toCheck visited matches) \<subseteq> {..<length bubbles}"
proof (induction bubbles tc toCheck visited matches rule: checkLoop.induct)
  case (1 bubbles targetColor toCheck visited matches)
  show ?case
  proof (cases "toCheck = []")
    case True
    then show ?thesis using 1 by (simp add: checkLoop.simps)
  next
    case False
    have "last toCheck \<in> set toCheck" using False by simp
    then have last_in: "last toCheck < length bubbles"
      using "1.prems"(1) by blast
    have rest_in: "set (butlast toCheck) \<subseteq> {..<length bubbles}"
      using "1.prems"(1) by (auto dest: in_set_butlastD)
    show ?thesis
      using False 1 last_in rest_in set_activeNeighbors
      apply (subst checkLoop.simps)
      apply (simp add: Let_def)
      done
  qed
qed

lemma checkLoop_unfold_empty: "checkLoop bubbles tc [] visited matches = matches"
  by (simp add: checkLoop.simps)

lemma checkLoop_unfold_seen:
  "toCheck \<noteq> [] \<Longrightarrow> bid (bubbles ! last toCheck) \<in> visited \<Longrightarrow>
     checkLoop bubbles tc toCheck visited matches = checkLoop bubbles tc (butlast toCheck) visited matches"
  by (subst checkLoop.simps) (simp add: Let_def)

lemma checkLoop_unfold_match:
  "toCheck \<noteq> [] \<Longrightarrow> bid (bubbles ! last toCheck) \<notin> visited \<Longrightarrow>
   matchesTarget tc (bubbles ! last toCheck) \<Longrightarrow>
     checkLoop bubbles tc toCheck visited matches =
       checkLoop bubbles tc
         (butlast toCheck @ activeNeighbors bubbles (insert (bid (bubbles ! last toCheck)) visited)
                              (bubbles ! last toCheck))
         (insert (bid (bubbles ! last toCheck)) visited) (matches @ [last toCheck])"
  by (subst checkLoop.simps) (simp add: Let_def)

lemma checkLoop_unfold_other:
  "toCheck \<noteq> [] \<Longrightarrow> bid (bubbles ! last toCheck) \<notin> visited \<Longrightarrow>
   \<not> matchesTarget tc (bubbles ! last toCheck) \<Longrightarrow>
     checkLoop bubbles tc toCheck visited matches =
       checkLoop bubbles tc (butlast toCheck) (insert (bid (bubbles ! last toCheck)) visited) matches"
  by (subst checkLoop.simps) (simp add: Let_def)

lemma checkLoop_keeps:
  "set matches \<subseteq> set (checkLoop bubbles tc toCheck visited matches)"
proof (induction bubbles tc toCheck visited matches rule: checkLoop.induct)
  case (1 bubbles targetColor toCheck visited matches)
  consider (empty) "toCheck = []"
    | (seen) "toCheck \<noteq> []" "bid (bubbles ! last toCheck) \<in> visited"
    | (hit) "toCheck \<noteq> []" "bid (bubbles ! last toCheck) \<notin> visited"
        "matchesTarget targetColor (bubbles ! last toCheck)"
    | (other) "toCheck \<noteq> []" "bid (bubbles ! last toCheck) \<notin> visited"
        "\<not> matchesTarget targetColor (bubbles ! last toCheck)"
    by blast
  then show ?case
  proof cases
    case empty
    then show ?thesis by (simp add: checkLoop_unfold_empty)
  next
    case seen
    with "1.IH"(1)[OF seen(1) refl refl seen(2)] show ?thesis
      by (simp add: checkLoop_unfold_seen)
  next
    case hit
    with "1.IH"(2)[OF hit(1) refl refl hit(2) refl hit(3)] show ?thesis
      by (simp add: checkLoop_unfold_match)
  next
    case other
    with "1.IH"(3)[OF other(1) refl refl other(2) refl other(3)] show ?thesis
      by (simp add: checkLoop_unfold_other)
  qed
qed

lemma checkLoop_all_match:
  "\<forall>i\<in>set matches. matchesTarget tc (bubbles ! i) \<Longrightarrow>
     \<forall>i\<in>set (checkLoop bubbles tc toCheck visited matches). matchesTarget tc (bubbles ! i)"
proof (induction bubbles tc toCheck visited matches rule: checkLoop.induct)
  case (1 bubbles targetColor toCheck visited matches)
  consider (empty) "toCheck = []"
    | (seen) "toCheck \<noteq> []" "bid (bubbles ! last toCheck) \<in> visited"
    | (hit) "toCheck \<noteq> []" "bid (bubbles ! last toCheck) \<notin> visited"
        "matchesTarget targetColor (bubbles ! last toCheck)"
    | (other) "toCheck \<noteq> []" "bid (bubbles ! last toCheck) \<notin> visited"
        "\<not> matchesTarget targetColor (bubbles ! last toCheck)"
    by blast
  then show ?case
  proof cases
    case empty
    then show ?thesis using "1.prems" by (simp add: checkLoop_unfold_empty)
  next
    case seen
    with "1.IH"(1)[OF seen(1) refl refl seen(2) "1.prems"] show ?thesis
      by (simp add: checkLoop_unfold_seen)
  next
    case hit
    have "\<forall>i\<in>set (matches @ [last toCheck]). matchesTarget targetColor (bubbles ! i)"
      using "1.prems" hit(3) by simp
    with "1.IH"(2)[OF hit(1) refl refl hit(2) refl hit(3)] hit show ?thesis
      by (simp add: checkLoop_unfold_match)
  next
    case other
    with "1.IH"(3)[OF other(1) refl refl other(2) refl other(3) "1.prems"] show ?thesis
      by (simp add: checkLoop_unfold_other)
  qed
qed

lemma distinct_bid_eq:
  "distinct (map bid bubbles) \<Longrightarrow> i < length bubbles \<Longrightarrow> j < length bubbles \<Longrightarrow>
     bid (bubbles ! i) = bid (bubbles ! j) \<Longrightarrow> i = j"
  using nth_eq_iff_index_eq[of "map bid bubbles" i j] by simp

lemma set_pop: "toCheck \<noteq> [] \<Longrightarrow> set toCheck = insert (last toCheck) (set (butlast toCheck))"
  by (induction toCheck rule: rev_induct) auto

lemma checkLoop_closed:
  assumes "distinct (map bid bubbles)"
    and "set toCheck \<subseteq> {..<length bubbles}"
    and "\<forall>j<length bubbles. bid (bubbles ! j) \<in> visited \<and> matchesTarget tc (bubbles ! j)
            \<longrightarrow> j \<in> set matches"
    and "\<forall>i\<in>set matches. \<forall>j<length bubbles.
            active (bubbles ! j) \<and> isNeighbor (bubbles ! i) (bubbles ! j)
            \<longrightarrow> bid (bubbles ! j) \<in> visited \<or> j \<in> set toCheck"
  shows "\<forall>i\<in>set (checkLoop bubbles tc toCheck visited matches). \<forall>j<length bubbles.
            active (bubbles ! j) \<and> isNeighbor (bubbles ! i) (bubbles ! j)
              \<and> matchesTarget tc (bubbles ! j)
            \<longrightarrow> j \<in> set (checkLoop bubbles tc toCheck visited matches)"
  using assms
proof (induction bubbles tc toCheck visited matches rule: checkLoop.induct)
  case (1 bubbles targetColor toCheck visited matches)
  note dist = "1.prems"(1) and sub = "1.prems"(2) and invA = "1.prems"(3) and invB = "1.prems"(4)
  consider (empty) "toCheck = []"
    | (seen) "toCheck \<noteq> []" "bid (bubbles ! last toCheck) \<in> visited"
    | (hit) "toCheck \<noteq> []" "bid (bubbles ! last toCheck) \<notin> visited"
        "matchesTarget targetColor (bubbles ! last toCheck)"
    | (other) "toCheck \<noteq> []" "bid (bubbles ! last toCheck) \<notin> visited"
        "\<not> matchesTarget targetColor (bubbles ! last toCheck)"
    by blast
  then show ?case
  proof cases
    case empty
    have "\<forall>i\<in>set matches. \<forall>j<length bubbles.
            active (bubbles ! j) \<and> isNeighbor (bubbles ! i) (bubbles ! j)
              \<and> matchesTarget targetColor (bubbles ! j) \<longrightarrow> j \<in> set matches"
      using invA invB empty by fastforce
    then show ?thesis using empty by (simp add: checkLoop_unfold_empty)
  next
    case seen
    note split = set_pop[OF seen(1)]
    have rest_sub: "set (butlast toCheck) \<subseteq> {..<length bubbles}"
      using sub split by auto
    have B': "\<forall>i\<in>set matches. \<forall>j<length bubbles.
            active (bubbles ! j) \<and> isNeighbor (bubbles ! i) (bubbles ! j)
            \<longrightarrow> bid (bubbles ! j) \<in> visited \<or> j \<in> set (butlast toCheck)"
    proof (intro ballI allI impI)
      fix i j assume "i \<in> set matches" "j < length bubbles"
        "active (bubbles ! j) \<and> isNeighbor (bubbles ! i) (bubbles ! j)"
      with invB have "bid (bubbles ! j) \<in> visited \<or> j \<in> set toCheck" by blast
      then show "bid (bubbles ! j) \<in> visited \<or> j \<in> set (butlast toCheck)"
        using split seen(2) by auto
    qed
    from "1.IH"(1)[OF seen(1) refl refl seen(2) dist rest_sub invA B'] show ?thesis
      by (simp only: checkLoop_unfold_seen[OF seen])
  next
    case hit
    note split = set_pop[OF hit(1)]
    let ?cur = "last toCheck"
    let ?vis = "insert (bid (bubbles ! ?cur)) visited"
    let ?nb = "activeNeighbors bubbles ?vis (bubbles ! ?cur)"
    have cur_lt: "?cur < length bubbles" using sub split by auto
    have sub': "set (butlast toCheck @ ?nb) \<subseteq> {..<length bubbles}"
      using sub split set_activeNeighbors[of bubbles ?vis "bubbles ! ?cur"] by auto
    have A': "\<forall>j<length bubbles. bid (bubbles ! j) \<in> ?vis \<and> matchesTarget targetColor (bubbles ! j)
            \<longrightarrow> j \<in> set (matches @ [?cur])"
    proof (intro allI impI)
      fix j assume j: "j < length bubbles"
        and h: "bid (bubbles ! j) \<in> ?vis \<and> matchesTarget targetColor (bubbles ! j)"
      show "j \<in> set (matches @ [?cur])"
      proof (cases "bid (bubbles ! j) = bid (bubbles ! ?cur)")
        case True
        then have "j = ?cur" using distinct_bid_eq[OF dist j cur_lt] by simp
        then show ?thesis by simp
      next
        case False
        with h have "bid (bubbles ! j) \<in> visited" by simp
        with invA j h show ?thesis by simp
      qed
    qed
    have B': "\<forall>i\<in>set (matches @ [?cur]). \<forall>j<length bubbles.
            active (bubbles ! j) \<and> isNeighbor (bubbles ! i) (bubbles ! j)
            \<longrightarrow> bid (bubbles ! j) \<in> ?vis \<or> j \<in> set (butlast toCheck @ ?nb)"
    proof (intro ballI allI impI)
      fix i j assume i: "i \<in> set (matches @ [?cur])" and j: "j < length bubbles"
        and aj: "active (bubbles ! j) \<and> isNeighbor (bubbles ! i) (bubbles ! j)"
      show "bid (bubbles ! j) \<in> ?vis \<or> j \<in> set (butlast toCheck @ ?nb)"
      proof (cases "i = ?cur")
        case True
        with j aj show ?thesis by (auto simp: activeNeighbors_def)
      next
        case False
        with i have "i \<in> set matches" by simp
        with invB j aj have "bid (bubbles ! j) \<in> visited \<or> j \<in> set toCheck" by blast
        then show ?thesis using split by auto
      qed
    qed
    from "1.IH"(2)[OF hit(1) refl refl hit(2) refl hit(3) dist sub' A' B'] show ?thesis
      by (simp only: checkLoop_unfold_match[OF hit])
  next
    case other
    note split = set_pop[OF other(1)]
    let ?cur = "last toCheck"
    let ?vis = "insert (bid (bubbles ! ?cur)) visited"
    have cur_lt: "?cur < length bubbles" using sub split by auto
    have rest_sub: "set (butlast toCheck) \<subseteq> {..<length bubbles}"
      using sub split by auto
    have A': "\<forall>j<length bubbles. bid (bubbles ! j) \<in> ?vis \<and> matchesTarget targetColor (bubbles ! j)
            \<longrightarrow> j \<in> set matches"
    proof (intro allI impI)
      fix j assume j: "j < length bubbles"
        and h: "bid (bubbles ! j) \<in> ?vis \<and> matchesTarget targetColor (bubbles ! j)"
      show "j \<in> set matches"
      proof (cases "bid (bubbles ! j) = bid (bubbles ! ?cur)")
        case True
        then have "j = ?cur" using distinct_bid_eq[OF dist j cur_lt] by simp
        with h other(3) show ?thesis by simp
      next
        case False
        with h have "bid (bubbles ! j) \<in> visited" by simp
        with invA j h show ?thesis by simp
      qed
    qed
    have B': "\<forall>i\<in>set matches. \<forall>j<length bubbles.
            active (bubbles ! j) \<and> isNeighbor (bubbles ! i) (bubbles ! j)
            \<longrightarrow> bid (bubbles ! j) \<in> ?vis \<or> j \<in> set (butlast toCheck)"
    proof (intro ballI allI impI)
      fix i j assume "i \<in> set matches" "j < length bubbles"
        "active (bubbles ! j) \<and> isNeighbor (bubbles ! i) (bubbles ! j)"
      with invB have "bid (bubbles ! j) \<in> visited \<or> j \<in> set toCheck" by blast
      then show "bid (bubbles ! j) \<in> ?vis \<or> j \<in> set (butlast toCheck)"
        using split by auto
    qed
    from "1.IH"(3)[OF other(1) refl refl other(2) refl other(3) dist rest_sub A' B'] show ?thesis
      by (simp only: checkLoop_unfold_other[OF other])
  qed
qed

lemma recolor_nth:
  "recolor bs j c ! k = (if k = j \<and> j < length bs then (bs ! j)\<lparr>color := c\<rparr> else bs ! k)"
  by (cases "j < length bs") (simp_all add: recolor_def nth_list_update list_update_beyond)

lemma recolor_bid: "bid (recolor bs j c ! k) = bid (bs ! k)"
  by (simp add: recolor_nth)

lemma recolor_active: "active (recolor bs j c ! k) = active (bs ! k)"
  by (simp add: recolor_nth)

lemma recolor_length: "length (recolor bs j c) = length bs"
  by (simp add: recolor_def)

lemma recolor_isNeighbor:
  "isNeighbor (recolor bs j c ! k) (recolor bs j c ! l) = isNeighbor (bs ! k) (bs ! l)"
  by (simp add: recolor_nth isNeighbor_def)

lemmas recolor_fields = recolor_bid recolor_active recolor_length

lemma recolor_matchesTarget:
  "powerUp (bs ! j) = Some Rainbow \<Longrightarrow>
     matchesTarget tc (recolor bs j c ! k) = matchesTarget tc (bs ! k)"
  by (simp add: recolor_nth matchesTarget_def)

lemma recolor_activeNeighbors:
  "activeNeighbors (recolor bs j c) visited (recolor bs j c ! k) = activeNeighbors bs visited (bs ! k)"
  unfolding activeNeighbors_def recolor_isNeighbor recolor_bid recolor_active recolor_length ..

lemma checkLoop_recolor:
  assumes "powerUp (bubbles ! j) = Some Rainbow"
  shows "checkLoop (recolor bubbles j c) tc toCheck visited matches
           = checkLoop bubbles tc toCheck visited matches"
  using assms
proof (induction bubbles tc toCheck visited matches rule: checkLoop.induct)
  case (1 bubbles targetColor toCheck visited matches)
  note rb = "1.prems"
  let ?bs = "recolor bubbles j c"
  consider (empty) "toCheck = []"
    | (seen) "toCheck \<noteq> []" "bid (bubbles ! last toCheck) \<in> visited"
    | (hit) "toCheck \<noteq> []" "bid (bubbles ! last toCheck) \<notin> visited"
        "matchesTarget targetColor (bubbles ! last toCheck)"
    | (other) "toCheck \<noteq> []" "bid (bubbles ! last toCheck) \<notin> visited"
        "\<not> matchesTarget targetColor (bubbles ! last toCheck)"
    by blast
  then show ?case
  proof cases
    case empty
    then show ?thesis by (simp add: checkLoop_unfold_empty)
  next
    case seen
    have "checkLoop ?bs targetColor toCheck visited matches
            = checkLoop ?bs targetColor (butlast toCheck) visited matches"
      using seen by (intro checkLoop_unfold_seen) (simp_all add: recolor_fields)
    also have "\<dots> = checkLoop bubbles targetColor (butlast toCheck) visited matches"
      by (rule "1.IH"(1)[OF seen(1) refl refl seen(2) rb])
    finally show ?thesis by (simp only: checkLoop_unfold_seen[OF seen])
  next
    case hit
    let ?vis = "insert (bid (bubbles ! last toCheck)) visited"
    have "checkLoop ?bs targetColor toCheck visited matches
            = checkLoop ?bs targetColor
                (butlast toCheck @ activeNeighbors ?bs (insert (bid (?bs ! last toCheck)) visited)
                                     (?bs ! last toCheck))
                (insert (bid (?bs ! last toCheck)) visited) (matches @ [last toCheck])"
      using hit rb by (intro checkLoop_unfold_match) (simp_all add: recolor_fields recolor_matchesTarget)
    also have "\<dots> = checkLoop ?bs targetColor
                (butlast toCheck @ activeNeighbors bubbles ?vis (bubbles ! last toCheck))
                ?vis (matches @ [last toCheck])"
      by (simp only: recolor_fields recolor_activeNeighbors)
    also have "\<dots> = checkLoop bubbles targetColor
                (butlast toCheck @ activeNeighbors bubbles ?vis (bubbles ! last toCheck))
                ?vis (matches @ [last toCheck])"
      by (rule "1.IH"(2)[OF hit(1) refl refl hit(2) refl hit(3) rb])
    finally show ?thesis by (simp only: checkLoop_unfold_match[OF hit])
  next
    case other
    let ?vis = "insert (bid (bubbles ! last toCheck)) visited"
    have "checkLoop ?bs targetColor toCheck visited matches
            = checkLoop ?bs targetColor (butlast toCheck)
                (insert (bid (?bs ! last toCheck)) visited) matches"
      using other rb by (intro checkLoop_unfold_other) (simp_all add: recolor_fields recolor_matchesTarget)
    also have "\<dots> = checkLoop ?bs targetColor (butlast toCheck) ?vis matches"
      by (simp only: recolor_fields)
    also have "\<dots> = checkLoop bubbles targetColor (butlast toCheck) ?vis matches"
      by (rule "1.IH"(3)[OF other(1) refl refl other(2) refl other(3) rb])
    finally show ?thesis by (simp only: checkLoop_unfold_other[OF other])
  qed
qed


lemma checkMatches_hit:
  assumes "matches = checkLoop bubbles (color (bubbles ! startBubble)) [startBubble] {} []"
    and "3 \<le> length matches"
  shows "checkMatches bubbles score startBubble =
           (foldl deactivate bubbles matches,
            score + \<lfloor>of_int (int (length matches) * points (color (bubbles ! startBubble)))
                      * (if 3 < length matches then 1.5 else 1 :: real)\<rfloor>,
            True)"
  using assms by (simp add: checkMatches_def Let_def foldl_add_const)

lemma checkMatches_miss:
  assumes "matches = checkLoop bubbles (color (bubbles ! startBubble)) [startBubble] {} []"
    and "length matches < 3"
  shows "checkMatches bubbles score startBubble = (bubbles, score, False)"
  using assms by (simp add: checkMatches_def Let_def)

lemma checkMatches_recolor:
  assumes "powerUp (bubbles ! j) = Some Rainbow" and "j \<noteq> startBubble"
  shows "snd (checkMatches (recolor bubbles j c) score startBubble)
           = snd (checkMatches bubbles score startBubble)"
proof -
  have col: "color (recolor bubbles j c ! startBubble) = color (bubbles ! startBubble)"
    using assms(2) by (simp add: recolor_nth)
  show ?thesis
    by (simp add: checkMatches_def Let_def col checkLoop_recolor[OF assms(1)])
qed

section \<open>Properties of the enumerator\<close>

lemma set_insertBy [simp]: "set (insertBy cmp a es) = insert a (set es)"
  by (induction es) auto

lemma length_insertBy [simp]: "length (insertBy cmp a es) = Suc (length es)"
  by (induction es) auto

lemma set_foldl_insertBy: "set (foldl (\<lambda>acc a. insertBy cmp a acc) acc xs) = set acc \<union> set xs"
  by (induction xs arbitrary: acc) auto

lemma set_sortBy [simp]: "set (sortBy cmp xs) = set xs"
  by (simp add: sortBy_def set_foldl_insertBy)





lemma find_Some_D: "find P xs = Some h \<Longrightarrow> h \<in> set xs \<and> P h"
  by (induction xs) (auto split: if_splits)




lemma notBomb_bombCandidate [simp]: "\<not> notBomb (bombCandidate b)"
  by (simp add: notBomb_def bombCandidate_def)









subsection \<open>Line of sight on the example boards\<close>

text \<open>
  The number of samples follows from bounds on the squared distance; a path is clear when
  every sample keeps 1.8 radii from every other active bubble along one axis, and blocked
  when one sample comes closer than that to one of them.
\<close>

lemma sqrt3_lower: "17 / 10 < sqrt 3"
  by (rule real_less_rsqrt) (simp add: power2_eq_square)

lemma sqrt3_upper: "sqrt 3 < 18 / 10"
  by (rule real_less_lsqrt) (simp_all add: power2_eq_square)

lemma steps_eq:
  assumes lo: "(11 * (of_int n - 1)) ^ 2 < d2" and hi: "d2 \<le> (11 * of_int n) ^ 2" and n: "1 \<le> n"
  shows "\<lceil>sqrt d2 / (BUBBLE_RADIUS / 2)\<rceil> = n"
proof -
  from n have nn: "(0::real) \<le> 11 * of_int n" by simp
  from lo have "11 * (of_int n - 1) < sqrt d2" by (rule real_less_rsqrt)
  moreover from hi nn have "sqrt d2 \<le> 11 * of_int n" by (intro real_le_lsqrt) simp_all
  ultimately have "of_int n - 1 < sqrt d2 / 11 \<and> sqrt d2 / 11 \<le> of_int n" by simp
  then show ?thesis by (simp add: BUBBLE_RADIUS_def ceiling_unique)
qed

lemma far_sample:
  assumes "r \<le> \<bar>a\<bar> \<or> r \<le> \<bar>b\<bar>" and "0 \<le> (r::real)"
  shows "\<not> a ^ 2 + b ^ 2 < r ^ 2"
proof -
  have sq: "\<And>c::real. r \<le> \<bar>c\<bar> \<Longrightarrow> r ^ 2 \<le> c ^ 2"
    using assms(2) by (metis abs_le_square_iff abs_of_nonneg)
  from assms(1) show ?thesis
  proof
    assume "r \<le> \<bar>a\<bar>"
    from sq[OF this] have "r ^ 2 \<le> a ^ 2 + b ^ 2" using zero_le_power2[of b] by linarith
    then show ?thesis by simp
  next
    assume "r \<le> \<bar>b\<bar>"
    from sq[OF this] have "r ^ 2 \<le> a ^ 2 + b ^ 2" using zero_le_power2[of a] by linarith
    then show ?thesis by simp
  qed
qed

lemma isPathClearI:
  assumes steps: "\<lceil>sqrt ((x target - px anchor) * (x target - px anchor)
                         + (y target - py anchor) * (y target - py anchor)) / (BUBBLE_RADIUS / 2)\<rceil> = n"
    and far: "\<And>i b. 1 \<le> i \<Longrightarrow> i \<le> n - 3 \<Longrightarrow> b \<in> set bubbles \<Longrightarrow> active b \<Longrightarrow> bid b \<noteq> bid target \<Longrightarrow>
           BUBBLE_RADIUS * 1.8 \<le> \<bar>px anchor + (x target - px anchor) * (of_int i / of_int n) - x b\<bar>
         \<or> BUBBLE_RADIUS * 1.8 \<le> \<bar>py anchor + (y target - py anchor) * (of_int i / of_int n) - y b\<bar>"
  shows "isPathClear anchor bubbles target"
proof -
  have r: "0 \<le> BUBBLE_RADIUS * 1.8" by (simp add: BUBBLE_RADIUS_def)
  show ?thesis
    unfolding isPathClear_def Let_def steps sampleFree_def list_all_iff
  proof (intro ballI)
    fix i b assume i: "i \<in> set [1..n - 3]" and b: "b \<in> set bubbles"
    show "if \<not> active b \<or> bid b = bid target then True
          else \<not> (px anchor + (x target - px anchor) * (real_of_int i / real_of_int n) - x b)\<^sup>2
                 + (py anchor + (y target - py anchor) * (real_of_int i / real_of_int n) - y b)\<^sup>2
                 < (BUBBLE_RADIUS * 1.8)\<^sup>2"
    proof (cases "\<not> active b \<or> bid b = bid target")
      case True
      then show ?thesis by simp
    next
      case False
      with far[of i b] i b have "BUBBLE_RADIUS * 1.8 \<le> \<bar>px anchor + (x target - px anchor) * (of_int i / of_int n) - x b\<bar>
         \<or> BUBBLE_RADIUS * 1.8 \<le> \<bar>py anchor + (y target - py anchor) * (of_int i / of_int n) - y b\<bar>"
        by simp
      from far_sample[OF this r] False show ?thesis by simp
    qed
  qed
qed

lemma isPathClear_blocked:
  assumes steps: "\<lceil>sqrt ((x target - px anchor) * (x target - px anchor)
                         + (y target - py anchor) * (y target - py anchor)) / (BUBBLE_RADIUS / 2)\<rceil> = n"
    and i: "1 \<le> i" "i \<le> n - 3"
    and b: "b \<in> set bubbles" "active b" "bid b \<noteq> bid target"
    and near: "(px anchor + (x target - px anchor) * (of_int i / of_int n) - x b)\<^sup>2
                 + (py anchor + (y target - py anchor) * (of_int i / of_int n) - y b)\<^sup>2
                 < (BUBBLE_RADIUS * 1.8)\<^sup>2"
  shows "\<not> isPathClear anchor bubbles target"
proof -
  from i have "i \<in> set [1..n - 3]" by simp
  with b near show ?thesis
    unfolding isPathClear_def Let_def steps sampleFree_def list_all_iff
    by (auto intro!: bexI[of _ i] bexI[of _ b])
qed

lemma isNeighbor_iff:
  "isNeighbor b1 b2 \<longleftrightarrow> (x b1 - x b2)\<^sup>2 + (y b1 - y b2)\<^sup>2 < (BUBBLE_RADIUS * 2.2)\<^sup>2"
proof -
  have "sqrt ((BUBBLE_RADIUS * 2.2)\<^sup>2) = BUBBLE_RADIUS * 2.2"
    by (simp add: BUBBLE_RADIUS_def)
  then have "sqrt ((x b1 - x b2)\<^sup>2 + (y b1 - y b2)\<^sup>2) < BUBBLE_RADIUS * 2.2
          \<longleftrightarrow> sqrt ((x b1 - x b2)\<^sup>2 + (y b1 - y b2)\<^sup>2) < sqrt ((BUBBLE_RADIUS * 2.2)\<^sup>2)"
    by simp
  also have "\<dots> \<longleftrightarrow> (x b1 - x b2)\<^sup>2 + (y b1 - y b2)\<^sup>2 < (BUBBLE_RADIUS * 2.2)\<^sup>2"
    by (rule real_sqrt_less_iff)
  finally show ?thesis by (simp add: isNeighbor_def Let_def)
qed

text \<open>
  \<open>slantBoard\<close>: the path to the bubble of row 0 stays 44 to the left of the bubble of row 1,
  and the path to the bubble of row 1 stays more than 50 below the bubble of row 0.
\<close>

lemma sq3: "(22 * sqrt 3 - 120)\<^sup>2 = 15852 - 5280 * sqrt 3"
  by (simp add: power2_diff power_mult_distrib)






text \<open>
  \<open>stackBoard\<close>: the paths to the two bubbles of row 0 pass within 19 of the bubble of row 1
  at the ninth of their twelve samples; the path to the bubble of row 1 is clear.
\<close>

lemma sq3b: "(30 - 22 * sqrt 3)\<^sup>2 = 2352 - 1320 * sqrt 3"
  by (simp add: power2_diff power_mult_distrib)

lemma stack_blocked_left: "\<not> isPathClear rowAnchor stackBoard (stackBoard ! 0)"
proof (rule isPathClear_blocked[where n = 12 and i = 9 and b = "stackBoard ! 2"])
  show "\<lceil>sqrt ((x (stackBoard ! 0) - px rowAnchor) * (x (stackBoard ! 0) - px rowAnchor)
                + (y (stackBoard ! 0) - py rowAnchor) * (y (stackBoard ! 0) - py rowAnchor)) / (BUBBLE_RADIUS / 2)\<rceil> = 12"
    by (rule steps_eq) (simp_all add: stackBoard_def rowAnchor_def)
  have "(px rowAnchor + (x (stackBoard ! 0) - px rowAnchor) * (of_int 9 / of_int 12) - x (stackBoard ! 2))\<^sup>2
          + (py rowAnchor + (y (stackBoard ! 0) - py rowAnchor) * (of_int 9 / of_int 12) - y (stackBoard ! 2))\<^sup>2
        = (33 / 2)\<^sup>2 + (30 - 22 * sqrt 3)\<^sup>2"
    by (simp add: stackBoard_def rowAnchor_def)
  also have "\<dots> < (BUBBLE_RADIUS * 1.8)\<^sup>2"
    unfolding sq3b using sqrt3_lower by (simp add: BUBBLE_RADIUS_def power2_eq_square)
  finally show "(px rowAnchor + (x (stackBoard ! 0) - px rowAnchor) * (of_int 9 / of_int 12) - x (stackBoard ! 2))\<^sup>2
          + (py rowAnchor + (y (stackBoard ! 0) - py rowAnchor) * (of_int 9 / of_int 12) - y (stackBoard ! 2))\<^sup>2
        < (BUBBLE_RADIUS * 1.8)\<^sup>2" .
qed (simp_all add: stackBoard_def)

lemma stack_blocked_right: "\<not> isPathClear rowAnchor stackBoard (stackBoard ! 1)"
proof (rule isPathClear_blocked[where n = 12 and i = 9 and b = "stackBoard ! 2"])
  show "\<lceil>sqrt ((x (stackBoard ! 1) - px rowAnchor) * (x (stackBoard ! 1) - px rowAnchor)
                + (y (stackBoard ! 1) - py rowAnchor) * (y (stackBoard ! 1) - py rowAnchor)) / (BUBBLE_RADIUS / 2)\<rceil> = 12"
    by (rule steps_eq) (simp_all add: stackBoard_def rowAnchor_def)
  have "(px rowAnchor + (x (stackBoard ! 1) - px rowAnchor) * (of_int 9 / of_int 12) - x (stackBoard ! 2))\<^sup>2
          + (py rowAnchor + (y (stackBoard ! 1) - py rowAnchor) * (of_int 9 / of_int 12) - y (stackBoard ! 2))\<^sup>2
        = (33 / 2)\<^sup>2 + (30 - 22 * sqrt 3)\<^sup>2"
    by (simp add: stackBoard_def rowAnchor_def)
  also have "\<dots> < (BUBBLE_RADIUS * 1.8)\<^sup>2"
    unfolding sq3b using sqrt3_lower by (simp add: BUBBLE_RADIUS_def power2_eq_square)
  finally show "(px rowAnchor + (x (stackBoard ! 1) - px rowAnchor) * (of_int 9 / of_int 12) - x (stackBoard ! 2))\<^sup>2
          + (py rowAnchor + (y (stackBoard ! 1) - py rowAnchor) * (of_int 9 / of_int 12) - y (stackBoard ! 2))\<^sup>2
        < (BUBBLE_RADIUS * 1.8)\<^sup>2" .
qed (simp_all add: stackBoard_def)

lemma stack_clear_lower: "isPathClear rowAnchor stackBoard (stackBoard ! 2)"
proof (rule isPathClearI[where n = 8])
  have "(x (stackBoard ! 2) - px rowAnchor) * (x (stackBoard ! 2) - px rowAnchor)
          + (y (stackBoard ! 2) - py rowAnchor) * (y (stackBoard ! 2) - py rowAnchor)
         = (22 * sqrt 3 - 120)\<^sup>2"
    by (simp add: stackBoard_def rowAnchor_def power2_eq_square)
  also have "\<dots> = 15852 - 5280 * sqrt 3" by (simp add: sq3)
  finally have d: "(x (stackBoard ! 2) - px rowAnchor) * (x (stackBoard ! 2) - px rowAnchor)
          + (y (stackBoard ! 2) - py rowAnchor) * (y (stackBoard ! 2) - py rowAnchor)
         = 15852 - 5280 * sqrt 3" .
  show "\<lceil>sqrt ((x (stackBoard ! 2) - px rowAnchor) * (x (stackBoard ! 2) - px rowAnchor)
                + (y (stackBoard ! 2) - py rowAnchor) * (y (stackBoard ! 2) - py rowAnchor)) / (BUBBLE_RADIUS / 2)\<rceil> = 8"
    unfolding d using sqrt3_lower sqrt3_upper by (intro steps_eq) simp_all
next
  fix i :: int and b
  assume i: "1 \<le> i" "i \<le> 8 - 3" and b: "b \<in> set stackBoard" "active b" "bid b \<noteq> bid (stackBoard ! 2)"
  from b have yb: "y b = 22" by (auto simp: stackBoard_def)
  from i have t: "real_of_int i / 8 \<le> 5 / 8" by simp
  have dy: "- 83 \<le> 22 * sqrt 3 - 120" "22 * sqrt 3 - 120 \<le> 0" using sqrt3_lower sqrt3_upper by simp_all
  from mult_left_mono_neg[OF t dy(2)]
  have "(22 * sqrt 3 - 120) * (5 / 8) \<le> (22 * sqrt 3 - 120) * (real_of_int i / 8)" .
  with dy(1) have q: "- 52 \<le> (22 * sqrt 3 - 120) * (real_of_int i / 8)" by simp
  have "py rowAnchor + (y (stackBoard ! 2) - py rowAnchor) * (of_int i / of_int 8) - y b
          = 120 + (22 * sqrt 3 - 120) * (real_of_int i / 8)"
    by (simp add: yb stackBoard_def rowAnchor_def)
  with q have "BUBBLE_RADIUS * 1.8 \<le> \<bar>py rowAnchor + (y (stackBoard ! 2) - py rowAnchor) * (of_int i / of_int 8) - y b\<bar>"
    unfolding BUBBLE_RADIUS_def by linarith
  then show "BUBBLE_RADIUS * 1.8 \<le> \<bar>px rowAnchor + (x (stackBoard ! 2) - px rowAnchor) * (of_int i / of_int 8) - x b\<bar>
     \<or> BUBBLE_RADIUS * 1.8 \<le> \<bar>py rowAnchor + (y (stackBoard ! 2) - py rowAnchor) * (of_int i / of_int 8) - y b\<bar>"
    by simp
qed

lemmas stack_paths = stack_blocked_left[unfolded stackBoard_def, simplified]
  stack_blocked_right[unfolded stackBoard_def, simplified]
  stack_clear_lower[unfolded stackBoard_def, simplified]




lemma stack_all: "getAllReachableClusters rowAnchor 1000 stackBoard =
   [\<lparr>c_id = ''1-5-1'', c_color = ''red'', c_size = 2, c_row = 1, c_col = 5,
           c_pointsPerBubble = 100, c_description = ''Center'', c_powerUp = None\<rparr>]"
  by (simp add: getAllReachableClusters_def uniqueInOrder_def bfsLoop.simps clusterNeighbors_def
        isNeighbor_iff emitCluster_def sortBy_def clusterCandidate_def stack_paths
        stackBoard_def BUBBLE_RADIUS_def Let_def power2_eq_square)

section \<open>Properties of the bomb and of the ceiling row\<close>

lemma foldl_bombStep:
  "foldl (bombStep bomb) (out, n) bs
     = (out @ map (blasted bomb) bs,
        n + int (length (filter (\<lambda>b. active b \<and> inBlast bomb b) bs)))"
  by (induction bs arbitrary: out n) (auto simp: bombStep_def blasted_def)

lemma triggerBomb_eq:
  "triggerBomb bomb s =
     s\<lparr> bubblesRef := map (blasted bomb) (bubblesRef s),
        scoreRef := scoreRef s + int (length (filter (\<lambda>b. active b \<and> inBlast bomb b) (bubblesRef s))) * 50 \<rparr>"
  by (simp add: triggerBomb_def foldl_bombStep)

lemma scanContact_HitBomb:
  assumes "scanContact pos bubbles = HitBomb j"
  shows "j < length bubbles \<and> active (bubbles ! j) \<and> powerUp (bubbles ! j) = Some Bomb
           \<and> touches pos (bubbles ! j)"
proof -
  from assms obtain k where f: "find (\<lambda>j. active (bubbles ! j) \<and> touches pos (bubbles ! j)) [0..<length bubbles] = Some k"
    and k: "(if powerUp (bubbles ! k) = Some Bomb then HitBomb k else HitBubble) = HitBomb j"
    by (auto simp: scanContact_def split: option.splits)
  from k have "k = j" "powerUp (bubbles ! j) = Some Bomb" by (auto split: if_splits)
  with find_Some_D[OF f] show ?thesis by simp
qed

lemma flightSteps_BombHit:
  "flightSteps n steps width bubbles pos vel = BombHit j pos' vel' \<Longrightarrow>
     j < length bubbles \<and> active (bubbles ! j) \<and> powerUp (bubbles ! j) = Some Bomb
       \<and> touches pos' (bubbles ! j)"
proof (induction n arbitrary: pos vel)
  case 0
  then show ?case by simp
next
  case (Suc n)
  obtain p1 v1 where mv: "moveBall width steps pos vel = (p1, v1)"
    by (cases "moveBall width steps pos vel") auto
  show ?case
  proof (cases "py p1 < BUBBLE_RADIUS")
    case True
    with Suc.prems mv show ?thesis by simp
  next
    case False
    show ?thesis
    proof (cases "scanContact p1 bubbles")
      case NoContact
      with Suc.prems mv False have "flightSteps n steps width bubbles p1 v1 = BombHit j pos' vel'"
        by simp
      then show ?thesis by (rule Suc.IH)
    next
      case (HitBomb k)
      with Suc.prems mv False have "k = j" "p1 = pos'" by simp_all
      with scanContact_HitBomb[OF HitBomb] show ?thesis by simp
    next
      case HitBubble
      with Suc.prems mv False show ?thesis by simp
    qed
  qed
qed

lemma inBlast_iff:
  "inBlast bomb b \<longleftrightarrow> (x b - x bomb) ^ 2 + (y b - y bomb) ^ 2 \<le> 77 ^ 2"
proof -
  have "sqrt ((x b - x bomb) ^ 2 + (y b - y bomb) ^ 2) \<le> 77
          \<longleftrightarrow> (x b - x bomb) ^ 2 + (y b - y bomb) ^ 2 \<le> 77 ^ 2"
    using real_le_lsqrt[of 77 "(x b - x bomb) ^ 2 + (y b - y bomb) ^ 2"]
      sqrt_le_D[of "(x b - x bomb) ^ 2 + (y b - y bomb) ^ 2" 77] by auto
  then show ?thesis by (simp add: inBlast_def BUBBLE_RADIUS_def Let_def)
qed

lemma shiftDown_fields [simp]:
  "row (shiftDown width b) = row b + 1" "col (shiftDown width b) = col b"
  "bid (shiftDown width b) = bid b" "active (shiftDown width b) = active b"
  "color (shiftDown width b) = color b" "powerUp (shiftDown width b) = powerUp b"
  "x (shiftDown width b) = px (getBubblePos (row b + 1) (col b) width)"
  "y (shiftDown width b) = py (getBubblePos (row b + 1) (col b) width)"
  by (simp_all add: shiftDown_def Let_def)

lemma ceilingStep_active:
  "active b \<Longrightarrow> ceilingStep width (out, m) b
     = (out @ [shiftDown width b], if row b + 1 > m then row b + 1 else m)"
  by (simp add: ceilingStep_def Let_def)

lemma ceilingStep_inactive:
  "\<not> active b \<Longrightarrow> ceilingStep width (out, m) b = (out @ [b], m)"
  by (simp add: ceilingStep_def)

lemma foldl_ceilingStep:
  "foldl (ceilingStep width) (out, m) bs = (out', m') \<Longrightarrow>
     out' = out @ map (lowered width) bs
     \<and> (\<forall>k. k \<le> m' \<longleftrightarrow> k \<le> m \<or> (\<exists>b\<in>set bs. active b \<and> k \<le> row b + 1))"
proof (induction bs arbitrary: out m)
  case Nil
  then show ?case by simp
next
  case (Cons b bs)
  show ?case
  proof (cases "active b")
    case True
    let ?m1 = "if row b + 1 > m then row b + 1 else m"
    from Cons.prems True
    have "foldl (ceilingStep width) (out @ [shiftDown width b], ?m1) bs = (out', m')"
      by (simp add: ceilingStep_active)
    from Cons.IH[OF this] True show ?thesis
      by (auto simp: lowered_def)
  next
    case False
    with Cons.prems have "foldl (ceilingStep width) (out @ [b], m) bs = (out', m')"
      by (simp add: ceilingStep_inactive)
    from Cons.IH[OF this] False show ?thesis
      by (auto simp: lowered_def)
  qed
qed

lemma createBubble_fields [simp]:
  "row (createBubble r c width d) = r" "col (createBubble r c width d) = c"
  "active (createBubble r c width d)" "bid (createBubble r c width d) = d_id d"
  "color (createBubble r c width d) = d_color d"
  by (simp_all add: createBubble_def Let_def)

lemma addCeilingRow_eq:
  "bubblesRef (addCeilingRow draws s)
     = map (lowered (logicalWidthRef s)) (bubblesRef s) @ topRow draws (logicalWidthRef s)"
  "gameOverRef (addCeilingRow draws s)
     = (gameOverRef s \<or> (\<exists>b\<in>set (bubblesRef s). active b \<and> MAX_ROWS_LIMIT \<le> row b + 1))"
proof -
  obtain moved maxRow where f: "foldl (ceilingStep (logicalWidthRef s)) ([], 0) (bubblesRef s) = (moved, maxRow)"
    by (cases "foldl (ceilingStep (logicalWidthRef s)) ([], 0) (bubblesRef s)") auto
  from foldl_ceilingStep[OF f]
  have mv: "moved = map (lowered (logicalWidthRef s)) (bubblesRef s)"
    and mx: "\<And>k. k \<le> maxRow \<longleftrightarrow> k \<le> 0 \<or> (\<exists>b\<in>set (bubblesRef s). active b \<and> k \<le> row b + 1)"
    by simp_all
  show "bubblesRef (addCeilingRow draws s)
     = map (lowered (logicalWidthRef s)) (bubblesRef s) @ topRow draws (logicalWidthRef s)"
    using f mv by (simp add: addCeilingRow_def topRow_def Let_def)
  have "MAX_ROWS_LIMIT \<le> maxRow \<longleftrightarrow> (\<exists>b\<in>set (bubblesRef s). active b \<and> MAX_ROWS_LIMIT \<le> row b + 1)"
    using mx[of MAX_ROWS_LIMIT] by (simp add: MAX_ROWS_LIMIT_def)
  then show "gameOverRef (addCeilingRow draws s)
     = (gameOverRef s \<or> (\<exists>b\<in>set (bubblesRef s). active b \<and> MAX_ROWS_LIMIT \<le> row b + 1))"
    using f by (auto simp: addCeilingRow_def Let_def)
qed

lemma addCeilingRow_others [simp]:
  "scoreRef (addCeilingRow draws s) = scoreRef s"
  "totalShotsRef (addCeilingRow draws s) = totalShotsRef s"
  "difficultyRef (addCeilingRow draws s) = difficultyRef s"
  "shotsUntilDropRef (addCeilingRow draws s) = shotsUntilDropRef s"
  by (simp_all add: addCeilingRow_def Let_def split: prod.splits)

lemma length_topRow [simp]: "length (topRow draws width) = 12"
  by (simp add: topRow_def GRID_COLS_def)

lemma topRow_nth:
  "c < 12 \<Longrightarrow> topRow draws width ! c = createBubble 0 (int c) width (draws (int c))"
proof -
  assume c: "c < 12"
  have "[0..GRID_COLS - 1] ! c = int c"
    using c nth_upto[of 0 c "GRID_COLS - 1"] by (simp add: GRID_COLS_def)
  with c show ?thesis by (simp add: topRow_def GRID_COLS_def)
qed

lemma length_checkMatches:
  "checkMatches bs sc i = (bs', sc', m) \<Longrightarrow> length bs' = length bs"
  by (auto simp: checkMatches_def Let_def split: if_splits)

lemma settle_bookkeeping:
  "shotsUntilDropRef (settle env s)
     = (if shotsUntilDropRef s - 1 \<le> 0 then d_dropInterval (DIFFICULTIES (difficultyRef s))
        else shotsUntilDropRef s - 1)"
  "length (bubblesRef (settle env s))
     = length (bubblesRef s) + 1 + (if shotsUntilDropRef s - 1 \<le> 0 then 12 else 0)"
  "totalShotsRef (settle env s) = totalShotsRef s + 1"
proof -
  let ?best = "snapToGrid (logicalWidthRef s) (bubblesRef s) (ballPos s)"
  let ?nb = "\<lparr> bid = e_newId env, row = bestRow ?best, col = bestCol ?best,
                        x = bestX ?best, y = bestY ?best, color = selectedColorRef s,
                        active = True, powerUp = None \<rparr>"
  obtain bs' sc' m where cm: "checkMatches (bubblesRef s @ [?nb]) (scoreRef s) (length (bubblesRef s)) = (bs', sc', m)"
    by (cases "checkMatches (bubblesRef s @ [?nb]) (scoreRef s) (length (bubblesRef s))") auto
  from length_checkMatches[OF cm] have len: "length bs' = length (bubblesRef s) + 1" by simp
  show "shotsUntilDropRef (settle env s)
     = (if shotsUntilDropRef s - 1 \<le> 0 then d_dropInterval (DIFFICULTIES (difficultyRef s))
        else shotsUntilDropRef s - 1)"
    using cm by (simp add: settle_def Let_def resetBall_def)
  show "length (bubblesRef (settle env s))
     = length (bubblesRef s) + 1 + (if shotsUntilDropRef s - 1 \<le> 0 then 12 else 0)"
    using cm len by (simp add: settle_def Let_def resetBall_def addCeilingRow_eq)
  show "totalShotsRef (settle env s) = totalShotsRef s + 1"
    using cm by (simp add: settle_def Let_def resetBall_def)
qed

section \<open>Properties of the advisor client\<close>


lemma insertBy_not_Nil [simp]: "insertBy cmp a es \<noteq> []"
  by (cases es) auto





lemma sortBy_Nil [simp]: "sortBy cmp [] = []"
  by (simp add: sortBy_def)



lemma retryLoop_responded:
  "i < retries \<Longrightarrow> transport i = Responded text \<Longrightarrow>
     retryLoop transport i delay slept = GotResponse text (i + 1) slept"
  by (subst retryLoop.simps) simp

lemma retryLoop_issue:
  "i < retries \<Longrightarrow> transport i = Rejected err \<Longrightarrow> isQuota err \<or> isOverloaded err \<Longrightarrow>
     retryLoop transport i delay slept = ServiceIssue err (i + 1) slept"
  by (subst retryLoop.simps) simp

lemma retryLoop_last:
  "i = retries - 1 \<Longrightarrow> transport i = Rejected err \<Longrightarrow> \<not> isQuota err \<Longrightarrow> \<not> isOverloaded err \<Longrightarrow>
     retryLoop transport i delay slept = Thrown err (i + 1) slept"
  by (subst retryLoop.simps) (simp add: retries_def)

lemma retryLoop_again:
  "i < retries - 1 \<Longrightarrow> transport i = Rejected err \<Longrightarrow> \<not> isQuota err \<Longrightarrow> \<not> isOverloaded err \<Longrightarrow>
     retryLoop transport i delay slept = retryLoop transport (i + 1) (delay * 2) (slept @ [delay])"
  by (subst retryLoop.simps) (simp add: retries_def)

lemma transient_Rejected:
  "transient a \<Longrightarrow> \<exists>err. a = Rejected err \<and> \<not> isQuota err \<and> \<not> isOverloaded err"
  by (cases a) (simp_all add: transient_def)

text \<open>The loop after \<open>k\<close> transient failures: it is at attempt \<open>k\<close> with the delays slept so far.\<close>

lemma retryLoop_after_transients:
  assumes "k < 3" and "\<forall>i<k. transient (transport i)"
  shows "retryLoop transport 0 1000 [] = retryLoop transport k (1000 * 2 ^ k) (take k [1000, 2000])"
proof -
  from assms(1) consider "k = 0" | "k = 1" | "k = 2" by linarith
  then show ?thesis
  proof cases
    case 1
    then show ?thesis by simp
  next
    case 2
    with assms(2) have "transient (transport 0)" by simp
    from transient_Rejected[OF this] obtain e0 where e0: "transport 0 = Rejected e0"
      "\<not> isQuota e0" "\<not> isOverloaded e0" by blast
    have "retryLoop transport 0 1000 [] = retryLoop transport (0 + 1) (1000 * 2) ([] @ [1000])"
      using e0 by (subst retryLoop.simps) (simp add: retries_def)
    with 2 show ?thesis by simp
  next
    case 3
    with assms(2) have "transient (transport 0)" "transient (transport 1)" by simp_all
    from transient_Rejected[OF this(1)] obtain e0 where e0: "transport 0 = Rejected e0"
      "\<not> isQuota e0" "\<not> isOverloaded e0" by blast
    from transient_Rejected[OF \<open>transient (transport 1)\<close>] obtain e1 where e1: "transport 1 = Rejected e1"
      "\<not> isQuota e1" "\<not> isOverloaded e1" by blast
    have "retryLoop transport 0 1000 [] = retryLoop transport (0 + 1) (1000 * 2) ([] @ [1000])"
      using e0 by (subst retryLoop.simps) (simp add: retries_def)
    also have "\<dots> = retryLoop transport 1 2000 [1000]" by simp
    also have "\<dots> = retryLoop transport (1 + 1) (2000 * 2) ([1000] @ [2000])"
      using e1 by (subst retryLoop.simps) (simp add: retries_def)
    also have "\<dots> = retryLoop transport 2 4000 [1000, 2000]" by (simp add: numeral_2_eq_2)
    finally show ?thesis using 3 by simp
  qed
qed

lemma retryLoop_bounded:
  "i \<le> retries \<Longrightarrow> outcomeAttempts (retryLoop transport i delay slept) \<le> retries"
proof (induction transport i delay slept rule: retryLoop.induct)
  case (1 transport i delay slept)
  show ?case
  proof (cases "i < retries")
    case False
    with "1.prems" show ?thesis by (subst retryLoop.simps) simp
  next
    case True
    show ?thesis
    proof (cases "transport i")
      case (Responded reply)
      with True show ?thesis by (subst retryLoop.simps) simp
    next
      case (Rejected err)
      show ?thesis
      proof (cases "isQuota err \<or> isOverloaded err")
        case issue: True
        with True Rejected show ?thesis by (subst retryLoop.simps) auto
      next
        case noissue: False
        show ?thesis
        proof (cases "i = retries - 1")
          case last: True
          with True Rejected noissue show ?thesis by (subst retryLoop.simps) auto
        next
          case notlast: False
          with True have "i + 1 \<le> retries" by simp
          from "1.IH"[OF True Rejected noissue notlast this]
          show ?thesis using True Rejected noissue notlast by (subst retryLoop.simps) auto
        qed
      qed
    qed
  qed
qed

lemma attempts_getStrategicHint:
  "attempts (getStrategicHint env transport validTargets) = outcomeAttempts (retryLoop transport 0 1000 [])"
  by (cases "retryLoop transport 0 1000 []") (simp_all add: getStrategicHint_def)

lemma validate_parse_error:
  "parseJSON env (bodyOf reply) = Inl emsg \<Longrightarrow>
     validateResponse env validTargets reply = parseErrorResponse env validTargets (bodyOf reply) emsg"
  by (simp add: validateResponse_def bodyOf_def Let_def)

lemma validate_null:
  "parseJSON env (bodyOf reply) = Inr JNull \<Longrightarrow>
     validateResponse env validTargets reply
       = parseErrorResponse env validTargets (bodyOf reply) (typeErrorMessage env JNull)"
  by (simp add: validateResponse_def bodyOf_def Let_def)

lemma validate_invalid:
  "parseJSON env (bodyOf reply) = Inr doc \<Longrightarrow> doc \<noteq> JNull \<Longrightarrow>
   Number env (getProp doc ''targetRow'') = NaN \<or> Number env (getProp doc ''targetCol'') = NaN
     \<or> \<not> truthy (getProp doc ''recommendedColor'') \<Longrightarrow>
     validateResponse env validTargets reply = invalidResponse env validTargets (bodyOf reply)"
  by (auto simp: validateResponse_def bodyOf_def Let_def)

lemma validate_not_string:
  "parseJSON env (bodyOf reply) = Inr doc \<Longrightarrow> doc \<noteq> JNull \<Longrightarrow>
   Number env (getProp doc ''targetRow'') \<noteq> NaN \<Longrightarrow> Number env (getProp doc ''targetCol'') \<noteq> NaN \<Longrightarrow>
   truthy (getProp doc ''recommendedColor'') \<Longrightarrow>
   \<forall>colour. getProp doc ''recommendedColor'' \<noteq> Some (JStr colour) \<Longrightarrow>
     validateResponse env validTargets reply
       = parseErrorResponse env validTargets (bodyOf reply) (typeErrorMessage env doc)"
  by (auto simp: validateResponse_def bodyOf_def Let_def split: option.splits json.splits)

lemma validate_valid:
  "parseJSON env (bodyOf reply) = Inr doc \<Longrightarrow> doc \<noteq> JNull \<Longrightarrow>
   Number env (getProp doc ''targetRow'') \<noteq> NaN \<Longrightarrow> Number env (getProp doc ''targetCol'') \<noteq> NaN \<Longrightarrow>
   getProp doc ''recommendedColor'' = Some (JStr colour) \<Longrightarrow> colour \<noteq> [] \<Longrightarrow>
     validateResponse env validTargets reply =
       \<lparr> hint = \<lparr> h_message = orElse (getProp doc ''message'') (JStr ''Good shot available!''),
                  h_rationale = getProp doc ''rationale'',
                  h_targetRow = Some (Number env (getProp doc ''targetRow'')),
                  h_targetCol = Some (Number env (getProp doc ''targetCol'')),
                  h_recommendedColor = Some (toLowerCase env colour) \<rparr>,
         debug = \<lparr> dbg_rawResponse = bodyOf reply, dbg_error = None \<rparr> \<rparr>"
  by (simp add: validateResponse_def bodyOf_def Let_def)

lemma validate_cases:
  obtains (unparsed) emsg where "parseJSON env (bodyOf reply) = Inl emsg"
        "validateResponse env validTargets reply = parseErrorResponse env validTargets (bodyOf reply) emsg"
  | (nulldoc) "parseJSON env (bodyOf reply) = Inr JNull"
        "validateResponse env validTargets reply
           = parseErrorResponse env validTargets (bodyOf reply) (typeErrorMessage env JNull)"
  | (invalid) doc where "parseJSON env (bodyOf reply) = Inr doc" "doc \<noteq> JNull"
        "Number env (getProp doc ''targetRow'') = NaN \<or> Number env (getProp doc ''targetCol'') = NaN
           \<or> \<not> truthy (getProp doc ''recommendedColor'')"
        "validateResponse env validTargets reply = invalidResponse env validTargets (bodyOf reply)"
  | (notstring) doc where "parseJSON env (bodyOf reply) = Inr doc" "doc \<noteq> JNull"
        "\<forall>colour. getProp doc ''recommendedColor'' \<noteq> Some (JStr colour)"
        "validateResponse env validTargets reply
           = parseErrorResponse env validTargets (bodyOf reply) (typeErrorMessage env doc)"
  | (valid) doc colour where "parseJSON env (bodyOf reply) = Inr doc" "doc \<noteq> JNull"
        "Number env (getProp doc ''targetRow'') \<noteq> NaN" "Number env (getProp doc ''targetCol'') \<noteq> NaN"
        "getProp doc ''recommendedColor'' = Some (JStr colour)" "colour \<noteq> []"
proof (cases "parseJSON env (bodyOf reply)")
  case (Inl emsg)
  with validate_parse_error[OF Inl] unparsed show ?thesis by blast
next
  case (Inr doc)
  show ?thesis
  proof (cases "doc = JNull")
    case True
    with Inr validate_null nulldoc show ?thesis by blast
  next
    case nn: False
    show ?thesis
    proof (cases "Number env (getProp doc ''targetRow'') = NaN \<or> Number env (getProp doc ''targetCol'') = NaN
           \<or> \<not> truthy (getProp doc ''recommendedColor'')")
      case True
      from validate_invalid[OF Inr nn True] Inr nn True invalid show ?thesis by blast
    next
      case ok: False
      show ?thesis
      proof (cases "\<exists>colour. getProp doc ''recommendedColor'' = Some (JStr colour)")
        case True
        then obtain colour where c: "getProp doc ''recommendedColor'' = Some (JStr colour)" by blast
        with ok have "colour \<noteq> []" by auto
        with Inr nn ok c valid show ?thesis by blast
      next
        case False
        then have ns: "\<forall>colour. getProp doc ''recommendedColor'' \<noteq> Some (JStr colour)" by blast
        from ok have "Number env (getProp doc ''targetRow'') \<noteq> NaN"
          "Number env (getProp doc ''targetCol'') \<noteq> NaN" "truthy (getProp doc ''recommendedColor'')"
          by simp_all
        from validate_not_string[OF Inr nn this ns] Inr nn ns notstring show ?thesis by blast
      qed
    qed
  qed
qed

lemma truthy_not_None: "truthy v \<Longrightarrow> v \<noteq> None"
  by (cases v) simp_all

section \<open>The claims of the specification\<close>

text \<open>
  Claim C1. Let \<open>matches\<close> be the set the wildcard-aware flood fill from the settled
  bubble yields. If it has at least 3 members, exactly its members are deactivated (every
  other bubble is untouched) and the score grows by the floor of the sum of the seed
  colour's base points over the members times the multiplier, which is 1.5 for more than 3
  members and 1 otherwise. If it has fewer than 3 members, no bubble is deactivated and
  the score is unchanged.
\<close>

theorem checkMatches_pops_and_scores:
  assumes start: "startBubble < length bubbles"
    and run: "checkMatches bubbles score startBubble = (bubbles', score', matched)"
    and m: "matches = checkLoop bubbles (color (bubbles ! startBubble)) [startBubble] {} []"
  shows "(3 \<le> length matches \<longrightarrow>
            matched \<and> length bubbles' = length bubbles
            \<and> set matches \<subseteq> {..<length bubbles}
            \<and> (\<forall>i<length bubbles. bubbles' ! i =
                   (if i \<in> set matches then (bubbles ! i)\<lparr>active := False\<rparr> else bubbles ! i))
            \<and> score' = score +
                  \<lfloor>of_int (sum_list (map (\<lambda>i. points (color (bubbles ! startBubble))) matches))
                     * (if 3 < length matches then 1.5 else 1 :: real)\<rfloor>)
         \<and> (length matches < 3 \<longrightarrow> \<not> matched \<and> bubbles' = bubbles \<and> score' = score)"
proof -
  have bound: "set matches \<subseteq> {..<length bubbles}"
    unfolding m using start by (intro checkLoop_bound) simp_all
  have pts: "foldl (\<lambda>p b. p + points (color (bubbles ! startBubble))) 0 matches
               = sum_list (map (\<lambda>i. points (color (bubbles ! startBubble))) matches)"
    by (simp add: foldl_add_const sum_list_triv)
  show ?thesis
  proof (cases "3 \<le> length matches")
    case True
    with run m pts have res: "bubbles' = foldl deactivate bubbles matches" "matched"
      "score' = score +
         \<lfloor>of_int (sum_list (map (\<lambda>i. points (color (bubbles ! startBubble))) matches))
            * (if 3 < length matches then 1.5 else 1 :: real)\<rfloor>"
      by (auto simp: checkMatches_def Let_def)
    from res(1) have "\<forall>i<length bubbles. bubbles' ! i =
                   (if i \<in> set matches then (bubbles ! i)\<lparr>active := False\<rparr> else bubbles ! i)"
      by (simp add: nth_foldl_deactivate)
    with True res bound show ?thesis by simp
  next
    case False
    with run m show ?thesis by (auto simp: checkMatches_def Let_def)
  qed
qed

theorem checkMatches_pops_and_scores_witness:
  "checkLoop board3 Red [2] {} [] = [2, 1, 0]
   \<and> \<not> active (fst (checkMatches board3 0 2) ! 1)
   \<and> fst (snd (checkMatches board3 0 2)) = 300
   \<and> checkLoop board4 Red [3] {} [] = [3, 2, 1, 0]
   \<and> fst (snd (checkMatches board4 0 3)) = 600
   \<and> fst (checkMatches board4 0 3) ! 4 = board4 ! 4
   \<and> checkMatches board4 7 4 = (board4, 7, False)"
proof -
  have run: "\<And>bs s i. checkMatches bs s i =
     (fst (checkMatches bs s i), fst (snd (checkMatches bs s i)), snd (snd (checkMatches bs s i)))"
    by simp
  have m3: "checkLoop board3 Red [2] {} [] = [2, 1, 0]"
    by (simp add: checkLoop.simps board3_def activeNeighbors_def isNeighbor_def
        BUBBLE_RADIUS_def matchesTarget_def Let_def)
  have c3: "color (board3 ! 2) = Red" and l3: "2 < length board3" by (simp_all add: board3_def)
  have m3': "[2, 1, 0] = checkLoop board3 (color (board3 ! 2)) [2] {} []" by (simp add: c3 m3)
  note r3 = checkMatches_pops_and_scores[OF l3 run m3', unfolded c3]
  have m4: "checkLoop board4 Red [3] {} [] = [3, 2, 1, 0]"
    by (simp add: checkLoop.simps board4_def activeNeighbors_def isNeighbor_def
        BUBBLE_RADIUS_def matchesTarget_def Let_def)
  have c4: "color (board4 ! 3) = Red" and l4: "3 < length board4" by (simp_all add: board4_def)
  have m4': "[3, 2, 1, 0] = checkLoop board4 (color (board4 ! 3)) [3] {} []" by (simp add: c4 m4)
  note r4 = checkMatches_pops_and_scores[OF l4 run m4', unfolded c4]
  have m5: "checkLoop board4 Blue [4] {} [] = [4]"
    by (simp add: checkLoop.simps board4_def activeNeighbors_def isNeighbor_def
        BUBBLE_RADIUS_def matchesTarget_def Let_def)
  have c5: "color (board4 ! 4) = Blue" and l5: "4 < length board4" by (simp_all add: board4_def)
  have m5': "[4] = checkLoop board4 (color (board4 ! 4)) [4] {} []" by (simp add: c5 m5)
  note r5 = checkMatches_pops_and_scores[OF l5 run m5', of 7, unfolded c5]
  from r3 have a: "\<not> active (fst (checkMatches board3 0 2) ! 1)" "fst (snd (checkMatches board3 0 2)) = 300"
    by (simp_all add: board3_def)
  from r4 have b: "fst (snd (checkMatches board4 0 3)) = 600"
    "fst (checkMatches board4 0 3) ! 4 = board4 ! 4"
    by (simp_all add: board4_def)
  from r5 have c: "checkMatches board4 7 4 = (board4, 7, False)"
    by (simp add: prod_eq_iff)
  from m3 a m4 b c show ?thesis by simp
qed

text \<open>
  Claim C9. With unique bubble ids, an active rainbow bubble adjacent to a member of the
  matched set is itself a member of it (so it counts towards the size) and is deactivated
  with it when the set has at least 3 members; the per-bubble base points are those of the
  seed bubble's colour. Painting the rainbow bubble any other colour changes neither the
  matched set nor the score.
\<close>

theorem rainbow_joins_match:
  assumes ids: "distinct (map bid bubbles)"
    and start: "startBubble < length bubbles"
    and m: "matches = checkLoop bubbles (color (bubbles ! startBubble)) [startBubble] {} []"
    and run: "checkMatches bubbles score startBubble = (bubbles', score', matched)"
    and member: "i \<in> set matches"
    and j: "j < length bubbles" "active (bubbles ! j)" "powerUp (bubbles ! j) = Some Rainbow"
    and adj: "isNeighbor (bubbles ! i) (bubbles ! j)"
  shows "j \<in> set matches
     \<and> (3 \<le> length matches \<longrightarrow>
           \<not> active (bubbles' ! j)
           \<and> score' = score +
                \<lfloor>of_int (int (length matches) * points (color (bubbles ! startBubble)))
                   * (if 3 < length matches then 1.5 else 1 :: real)\<rfloor>)
     \<and> (j \<noteq> startBubble \<longrightarrow>
           (\<forall>c. checkLoop (recolor bubbles j c) (color (recolor bubbles j c ! startBubble))
                  [startBubble] {} [] = matches
                \<and> snd (checkMatches (recolor bubbles j c) score startBubble) = (score', matched)))"
proof -
  have closed: "\<forall>i\<in>set matches. \<forall>j<length bubbles.
            active (bubbles ! j) \<and> isNeighbor (bubbles ! i) (bubbles ! j)
              \<and> matchesTarget (color (bubbles ! startBubble)) (bubbles ! j)
            \<longrightarrow> j \<in> set matches"
    unfolding m using start by (intro checkLoop_closed[OF ids]) simp_all
  have rb: "matchesTarget (color (bubbles ! startBubble)) (bubbles ! j)"
    using j(3) by (simp add: matchesTarget_def)
  from closed member j adj rb have jin: "j \<in> set matches" by blast
  have hit: "3 \<le> length matches \<longrightarrow>
           \<not> active (bubbles' ! j)
           \<and> score' = score +
                \<lfloor>of_int (int (length matches) * points (color (bubbles ! startBubble)))
                   * (if 3 < length matches then 1.5 else 1 :: real)\<rfloor>"
  proof
    assume big: "3 \<le> length matches"
    from checkMatches_hit[OF m big, of score] run
    have "bubbles' = foldl deactivate bubbles matches"
      and sc: "score' = score +
                \<lfloor>of_int (int (length matches) * points (color (bubbles ! startBubble)))
                   * (if 3 < length matches then 1.5 else 1 :: real)\<rfloor>"
      by simp_all
    then have "\<not> active (bubbles' ! j)"
      using jin j(1) by (simp add: nth_foldl_deactivate)
    with sc show "\<not> active (bubbles' ! j)
           \<and> score' = score +
                \<lfloor>of_int (int (length matches) * points (color (bubbles ! startBubble)))
                   * (if 3 < length matches then 1.5 else 1 :: real)\<rfloor>" by simp
  qed
  have rec: "j \<noteq> startBubble \<longrightarrow>
           (\<forall>c. checkLoop (recolor bubbles j c) (color (recolor bubbles j c ! startBubble))
                  [startBubble] {} [] = matches
                \<and> snd (checkMatches (recolor bubbles j c) score startBubble) = (score', matched))"
  proof (intro impI allI)
    fix c assume ne: "j \<noteq> startBubble"
    have col: "color (recolor bubbles j c ! startBubble) = color (bubbles ! startBubble)"
      using ne by (simp add: recolor_nth)
    have "checkLoop (recolor bubbles j c) (color (recolor bubbles j c ! startBubble))
                  [startBubble] {} [] = matches"
      by (simp only: col checkLoop_recolor[OF j(3)] m)
    moreover have "snd (checkMatches (recolor bubbles j c) score startBubble) = (score', matched)"
      using checkMatches_recolor[OF j(3) ne, of c score] run by simp
    ultimately show "checkLoop (recolor bubbles j c) (color (recolor bubbles j c ! startBubble))
                  [startBubble] {} [] = matches
                \<and> snd (checkMatches (recolor bubbles j c) score startBubble) = (score', matched)"
      by simp
  qed
  from jin hit rec show ?thesis by simp
qed

theorem rainbow_joins_match_witness:
  "1 \<in> set (checkLoop board3 Red [2] {} [])
   \<and> \<not> active (fst (checkMatches board3 0 2) ! 1)
   \<and> fst (snd (checkMatches board3 0 2)) = 300
   \<and> fst (snd (checkMatches (recolor board3 1 Orange) 0 2)) = 300"
proof -
  have ml: "checkLoop board3 Red [2] {} [] = [2, 1, 0]"
    by (simp add: checkLoop.simps board3_def activeNeighbors_def isNeighbor_def
        BUBBLE_RADIUS_def matchesTarget_def Let_def)
  have c: "color (board3 ! 2) = Red" by (simp add: board3_def)
  have m: "[2, 1, 0] = checkLoop board3 (color (board3 ! 2)) [2] {} []"
    by (simp add: c ml)
  have ids: "distinct (map bid board3)" by (simp add: board3_def)
  have start: "2 < length board3" by (simp add: board3_def)
  have run: "checkMatches board3 0 2 =
     (fst (checkMatches board3 0 2), fst (snd (checkMatches board3 0 2)), snd (snd (checkMatches board3 0 2)))"
    by simp
  have member: "(2::nat) \<in> set [2, 1, 0]" by simp
  have j: "1 < length board3" "active (board3 ! 1)" "powerUp (board3 ! 1) = Some Rainbow"
    by (simp_all add: board3_def)
  have adj: "isNeighbor (board3 ! 2) (board3 ! 1)"
    by (simp add: board3_def isNeighbor_def BUBBLE_RADIUS_def)
  note r = rainbow_joins_match[OF ids start m run member j adj, unfolded c]
  from r have sc: "fst (snd (checkMatches board3 0 2)) = 300"
    and act: "\<not> active (fst (checkMatches board3 0 2) ! 1)" by simp_all
  from r have "snd (checkMatches (recolor board3 1 Orange) 0 2) = snd (checkMatches board3 0 2)"
    by simp
  then have "fst (snd (checkMatches (recolor board3 1 Orange) 0 2)) = 300"
    using sc by simp
  with sc act ml show ?thesis by simp
qed




text \<open>
  Claim C7. When a sub-step of the flight touches a bomb, the bomb is an active bomb bubble
  of the board; the frame deactivates exactly the active bubbles whose centre is within
  3.5 radii of the bomb's centre, whatever their colour, and leaves every other bubble as it
  was; the score grows by 50 for each bubble destroyed; the ball is back at the anchor at
  rest and no longer flying; the bubble array has the length it had (no bubble is placed),
  and the shot counters and the game-over flag are unchanged.
\<close>

theorem bomb_hit_clears_blast_area:
  assumes flying: "isFlying s"
    and intime: "\<not> e_now env - flightStartTime s > 5000"
    and steps: "steps = \<lceil>sqrt (px (ballVel s) ^ 2 + py (ballVel s) ^ 2) / (BUBBLE_RADIUS * 0.8)\<rceil>"
    and hit: "flightSteps (nat steps) steps (logicalWidthRef s) (bubblesRef s) (ballPos s) (ballVel s)
                = BombHit j pos vel"
    and bomb: "bomb = bubblesRef s ! j"
    and s': "s' = physicsUpdate env s"
  shows "j < length (bubblesRef s) \<and> active bomb \<and> powerUp bomb = Some Bomb \<and> touches pos bomb
     \<and> length (bubblesRef s') = length (bubblesRef s)
     \<and> (\<forall>i<length (bubblesRef s).
           bubblesRef s' ! i =
             (if active (bubblesRef s ! i) \<and> inBlast bomb (bubblesRef s ! i)
              then (bubblesRef s ! i)\<lparr>active := False\<rparr> else bubblesRef s ! i))
     \<and> scoreRef s' = scoreRef s
           + int (length (filter (\<lambda>b. active b \<and> inBlast bomb b) (bubblesRef s))) * 50
     \<and> \<not> isFlying s' \<and> ballPos s' = anchorPos s \<and> ballVel s' = \<lparr> px = 0, py = 0 \<rparr>
     \<and> totalShotsRef s' = totalShotsRef s \<and> shotsUntilDropRef s' = shotsUntilDropRef s
     \<and> gameOverRef s' = gameOverRef s"
proof -
  have b: "j < length (bubblesRef s) \<and> active bomb \<and> powerUp bomb = Some Bomb \<and> touches pos bomb"
    using flightSteps_BombHit[OF hit] bomb by simp
  have eq: "s' = resetBall ((triggerBomb bomb (s\<lparr> ballPos := pos, ballVel := vel \<rparr>))\<lparr> isFlying := False \<rparr>)"
    using flying intime hit[unfolded steps] bomb s'
    by (simp add: physicsUpdate_def Let_def)
  have bubbles: "bubblesRef s' = map (blasted bomb) (bubblesRef s)"
    and rest: "scoreRef s' = scoreRef s
           + int (length (filter (\<lambda>b. active b \<and> inBlast bomb b) (bubblesRef s))) * 50"
      "\<not> isFlying s'" "ballPos s' = anchorPos s" "ballVel s' = \<lparr> px = 0, py = 0 \<rparr>"
      "totalShotsRef s' = totalShotsRef s" "shotsUntilDropRef s' = shotsUntilDropRef s"
      "gameOverRef s' = gameOverRef s"
    unfolding eq by (simp_all add: triggerBomb_eq resetBall_def)
  from bubbles have len: "length (bubblesRef s') = length (bubblesRef s)" by simp
  from bubbles have nth: "\<forall>i<length (bubblesRef s).
           bubblesRef s' ! i =
             (if active (bubblesRef s ! i) \<and> inBlast bomb (bubblesRef s ! i)
              then (bubblesRef s ! i)\<lparr>active := False\<rparr> else bubblesRef s ! i)"
    by (simp add: blasted_def)
  from b len nth rest show ?thesis by simp
qed

theorem bomb_hit_clears_blast_area_witness:
  "map active (bubblesRef (physicsUpdate frameEnv flightSetup)) = [False, False, True]
   \<and> scoreRef (physicsUpdate frameEnv flightSetup) = 100
   \<and> \<not> isFlying (physicsUpdate frameEnv flightSetup)
   \<and> ballPos (physicsUpdate frameEnv flightSetup) = \<lparr>px = 500, py = 142\<rparr>"
proof -
  have flying: "isFlying flightSetup" by (simp add: flightSetup_def)
  have intime: "\<not> e_now frameEnv - flightStartTime flightSetup > 5000"
    by (simp add: flightSetup_def frameEnv_def)
  have steps: "(2::int) = \<lceil>sqrt (px (ballVel flightSetup) ^ 2 + py (ballVel flightSetup) ^ 2)
                           / (BUBBLE_RADIUS * 0.8)\<rceil>"
    by (simp add: flightSetup_def BUBBLE_RADIUS_def)
  have hit: "flightSteps (nat 2) 2 (logicalWidthRef flightSetup) (bubblesRef flightSetup)
               (ballPos flightSetup) (ballVel flightSetup)
             = BombHit 0 \<lparr>px = 478, py = 59\<rparr> \<lparr>px = 0, py = - 22\<rparr>"
    by (simp add: flightSetup_def numeral_2_eq_2 moveBall_def scanContact_def touches_def
        BUBBLE_RADIUS_def Let_def)
  note r = bomb_hit_clears_blast_area[OF flying intime steps hit refl refl]
  have len: "length (bubblesRef (physicsUpdate frameEnv flightSetup)) = 3"
    using r by (simp add: flightSetup_def)
  have "map active (bubblesRef (physicsUpdate frameEnv flightSetup)) = [False, False, True]"
    using r len
    by (simp add: list_eq_iff_nth_eq flightSetup_def inBlast_iff less_Suc_eq numeral_3_eq_3)
  moreover have "scoreRef (physicsUpdate frameEnv flightSetup) = 100"
    using r by (simp add: flightSetup_def inBlast_iff)
  moreover have "\<not> isFlying (physicsUpdate frameEnv flightSetup)"
    "ballPos (physicsUpdate frameEnv flightSetup) = \<lparr>px = 500, py = 142\<rparr>"
    using r by (simp_all add: flightSetup_def)
  ultimately show ?thesis by simp
qed

text \<open>
  Claim C8. \<open>addCeilingRow\<close> moves every active bubble down by exactly one row (keeping its
  column, id and colour) and leaves inactive bubbles alone; it appends twelve active
  bubbles in row 0, one in each of the columns 0 to 11; afterwards the game is over if and
  only if it was over before or some active bubble's resulting row is at or beyond
  \<open>MAX_ROWS_LIMIT\<close>. A settled shot invokes it exactly when the drop counter runs out, and
  then resets the counter to the difficulty's interval.
\<close>

theorem ceiling_row_escalation:
  assumes s': "s' = addCeilingRow draws s"
  shows "length (bubblesRef s') = length (bubblesRef s) + 12
     \<and> (\<forall>i<length (bubblesRef s).
           if active (bubblesRef s ! i)
           then row (bubblesRef s' ! i) = row (bubblesRef s ! i) + 1
              \<and> col (bubblesRef s' ! i) = col (bubblesRef s ! i)
              \<and> bid (bubblesRef s' ! i) = bid (bubblesRef s ! i)
              \<and> color (bubblesRef s' ! i) = color (bubblesRef s ! i)
              \<and> active (bubblesRef s' ! i)
           else bubblesRef s' ! i = bubblesRef s ! i)
     \<and> (\<forall>c<12. row (bubblesRef s' ! (length (bubblesRef s) + c)) = 0
              \<and> col (bubblesRef s' ! (length (bubblesRef s) + c)) = int c
              \<and> active (bubblesRef s' ! (length (bubblesRef s) + c)))
     \<and> gameOverRef s' =
           (gameOverRef s \<or> (\<exists>b\<in>set (bubblesRef s'). active b \<and> MAX_ROWS_LIMIT \<le> row b))
     \<and> (\<forall>env st.
           shotsUntilDropRef (settle env st) =
             (if shotsUntilDropRef st - 1 \<le> 0 then d_dropInterval (DIFFICULTIES (difficultyRef st))
              else shotsUntilDropRef st - 1)
           \<and> length (bubblesRef (settle env st)) =
               length (bubblesRef st) + 1 + (if shotsUntilDropRef st - 1 \<le> 0 then 12 else 0))"
proof -
  let ?W = "logicalWidthRef s"
  have bs: "bubblesRef s' = map (lowered ?W) (bubblesRef s) @ topRow draws ?W"
    unfolding s' by (rule addCeilingRow_eq)
  have len: "length (bubblesRef s') = length (bubblesRef s) + 12"
    by (simp add: bs)
  have old: "\<forall>i<length (bubblesRef s).
           if active (bubblesRef s ! i)
           then row (bubblesRef s' ! i) = row (bubblesRef s ! i) + 1
              \<and> col (bubblesRef s' ! i) = col (bubblesRef s ! i)
              \<and> bid (bubblesRef s' ! i) = bid (bubblesRef s ! i)
              \<and> color (bubblesRef s' ! i) = color (bubblesRef s ! i)
              \<and> active (bubblesRef s' ! i)
           else bubblesRef s' ! i = bubblesRef s ! i"
    by (simp add: bs nth_append lowered_def)
  have new: "\<forall>c<12. row (bubblesRef s' ! (length (bubblesRef s) + c)) = 0
              \<and> col (bubblesRef s' ! (length (bubblesRef s) + c)) = int c
              \<and> active (bubblesRef s' ! (length (bubblesRef s) + c))"
    by (simp add: bs nth_append topRow_nth)
  have top: "\<forall>b\<in>set (topRow draws ?W). row b = 0"
    by (auto simp: topRow_def)
  have "(\<exists>b\<in>set (bubblesRef s'). active b \<and> MAX_ROWS_LIMIT \<le> row b)
          \<longleftrightarrow> (\<exists>b\<in>set (bubblesRef s). active b \<and> MAX_ROWS_LIMIT \<le> row b + 1)"
  proof
    assume "\<exists>b\<in>set (bubblesRef s'). active b \<and> MAX_ROWS_LIMIT \<le> row b"
    then obtain b where b: "b \<in> set (bubblesRef s')" "active b" "MAX_ROWS_LIMIT \<le> row b" by blast
    from b(1) bs consider (o) b0 where "b0 \<in> set (bubblesRef s)" "b = lowered ?W b0"
      | (n) "b \<in> set (topRow draws ?W)" by auto
    then show "\<exists>b\<in>set (bubblesRef s). active b \<and> MAX_ROWS_LIMIT \<le> row b + 1"
    proof cases
      case o
      with b(2,3) have "active b0 \<and> MAX_ROWS_LIMIT \<le> row b0 + 1"
        by (auto simp: lowered_def split: if_splits)
      with o(1) show ?thesis by blast
    next
      case n
      with top b(3) show ?thesis by (auto simp: MAX_ROWS_LIMIT_def)
    qed
  next
    assume "\<exists>b\<in>set (bubblesRef s). active b \<and> MAX_ROWS_LIMIT \<le> row b + 1"
    then obtain b0 where b0: "b0 \<in> set (bubblesRef s)" "active b0" "MAX_ROWS_LIMIT \<le> row b0 + 1"
      by blast
    then have "lowered ?W b0 \<in> set (bubblesRef s')" "active (lowered ?W b0)"
      "MAX_ROWS_LIMIT \<le> row (lowered ?W b0)"
      by (auto simp: bs lowered_def)
    then show "\<exists>b\<in>set (bubblesRef s'). active b \<and> MAX_ROWS_LIMIT \<le> row b" by blast
  qed
  then have over: "gameOverRef s' =
           (gameOverRef s \<or> (\<exists>b\<in>set (bubblesRef s'). active b \<and> MAX_ROWS_LIMIT \<le> row b))"
    unfolding s' by (simp add: addCeilingRow_eq(2))
  from len old new over settle_bookkeeping(1,2) show ?thesis by simp
qed

theorem ceiling_row_escalation_witness:
  "length (bubblesRef (addCeilingRow someDraws lowBoardState)) = 14
   \<and> row (bubblesRef (addCeilingRow someDraws lowBoardState) ! 0) = 11
   \<and> bubblesRef (addCeilingRow someDraws lowBoardState) ! 1 = bubblesRef lowBoardState ! 1
   \<and> col (bubblesRef (addCeilingRow someDraws lowBoardState) ! 13) = 11
   \<and> gameOverRef (addCeilingRow someDraws lowBoardState)"
proof -
  let ?s' = "addCeilingRow someDraws lowBoardState"
  note r = ceiling_row_escalation[OF refl, of someDraws lowBoardState]
  have len: "length (bubblesRef lowBoardState) = 2" by (simp add: lowBoardState_def)
  have b0: "active (bubblesRef lowBoardState ! 0)" "row (bubblesRef lowBoardState ! 0) = 10"
    and b1: "\<not> active (bubblesRef lowBoardState ! 1)"
    by (simp_all add: lowBoardState_def)
  from r len have l: "length (bubblesRef ?s') = 14" by simp
  note old = r[THEN conjunct2, THEN conjunct1, rule_format]
  note new = r[THEN conjunct2, THEN conjunct2, THEN conjunct1, rule_format]
  note over = r[THEN conjunct2, THEN conjunct2, THEN conjunct2, THEN conjunct1]
  from old[of 0] len b0 have o0: "row (bubblesRef ?s' ! 0) = 11" "active (bubblesRef ?s' ! 0)"
    by simp_all
  from old[of 1] len b1 have o1: "bubblesRef ?s' ! 1 = bubblesRef lowBoardState ! 1"
    by simp
  from new[of 11] len have n: "col (bubblesRef ?s' ! 13) = 11" by simp
  have "bubblesRef ?s' ! 0 \<in> set (bubblesRef ?s')"
    using l by simp
  with o0 have "\<exists>b\<in>set (bubblesRef ?s'). active b \<and> MAX_ROWS_LIMIT \<le> row b"
    by (auto simp: MAX_ROWS_LIMIT_def)
  with over have g: "gameOverRef ?s'" by simp
  from l o0 o1 n g show ?thesis by simp
qed

text \<open>
  Claim C5 says that every reachable bomb yields exactly one candidate of its own. The
  bomb branch stands inside the loop over the colours, whose \<open>visited\<close> set starts empty
  for each colour. On a board with a reachable red bomb beside a blue bubble the bomb's
  candidate is therefore pushed twice, once in the pass of each colour. On a board with one
  colour where a red bubble precedes a touching red bomb, the search from the red bubble
  marks the bomb visited before the loop reaches it, and the reachable bomb yields no
  candidate of its own at all.
\<close>

theorem bomb_candidate_repeated_per_colour:
  "isPathClear rowAnchor bombBoard (bombBoard ! 0)
   \<and> getAllReachableClusters rowAnchor 1000 bombBoard =
       [bombCandidate (bombBoard ! 0), bombCandidate (bombBoard ! 0),
        \<lparr>c_id = ''0-6-1'', c_color = ''blue'', c_size = 1, c_row = 0, c_col = 6,
         c_pointsPerBubble = 150, c_description = ''Center'', c_powerUp = None\<rparr>]
   \<and> length (filter (\<lambda>c. c_powerUp c = Some Bomb)
         (getAllReachableClusters rowAnchor 1000 bombBoard)) = 2
   \<and> isPathClear rowAnchor absorbBoard (absorbBoard ! 1)
   \<and> getAllReachableClusters rowAnchor 1000 absorbBoard =
       [\<lparr>c_id = ''0-6-1'', c_color = ''red'', c_size = 2, c_row = 0, c_col = 6,
         c_pointsPerBubble = 100, c_description = ''Center'', c_powerUp = None\<rparr>]"
proof -
  have clear1: "isPathClear rowAnchor bombBoard (bombBoard ! 0)"
    by (simp add: isPathClear_def sampleFree_def bombBoard_def rowAnchor_def BUBBLE_RADIUS_def
        Let_def upto.simps power2_eq_square)
  have all1: "getAllReachableClusters rowAnchor 1000 bombBoard =
       [bombCandidate (bombBoard ! 0), bombCandidate (bombBoard ! 0),
        \<lparr>c_id = ''0-6-1'', c_color = ''blue'', c_size = 1, c_row = 0, c_col = 6,
         c_pointsPerBubble = 150, c_description = ''Center'', c_powerUp = None\<rparr>]"
    by (simp add: getAllReachableClusters_def uniqueInOrder_def bfsLoop.simps clusterNeighbors_def
        isNeighbor_def isPathClear_def sampleFree_def bombBoard_def rowAnchor_def BUBBLE_RADIUS_def
        emitCluster_def sortBy_def clusterCandidate_def bombCandidate_def
        Let_def upto.simps power2_eq_square)
  have count: "length (filter (\<lambda>c. c_powerUp c = Some Bomb)
         (getAllReachableClusters rowAnchor 1000 bombBoard)) = 2"
    unfolding all1 by (simp add: bombCandidate_def)
  have clear2: "isPathClear rowAnchor absorbBoard (absorbBoard ! 1)"
    by (simp add: isPathClear_def sampleFree_def absorbBoard_def rowAnchor_def BUBBLE_RADIUS_def
        Let_def upto.simps power2_eq_square)
  have all2: "getAllReachableClusters rowAnchor 1000 absorbBoard =
       [\<lparr>c_id = ''0-6-1'', c_color = ''red'', c_size = 2, c_row = 0, c_col = 6,
         c_pointsPerBubble = 100, c_description = ''Center'', c_powerUp = None\<rparr>]"
    by (simp add: getAllReachableClusters_def uniqueInOrder_def bfsLoop.simps clusterNeighbors_def
        isNeighbor_def isPathClear_def sampleFree_def absorbBoard_def rowAnchor_def BUBBLE_RADIUS_def
        emitCluster_def sortBy_def clusterCandidate_def bombCandidate_def
        Let_def upto.simps power2_eq_square)
  from clear1 all1 count clear2 all2 show ?thesis by blast
qed




text \<open>
  Claim C3. Let the first \<open>k < 3\<close> requests fail with transient errors. If request \<open>k\<close>
  fails with a quota or overload signal, the call makes no further request: it has made
  \<open>k + 1\<close> requests and slept the first \<open>k\<close> of the delays 1000, 2000 ms, and it returns
  the local fallback hint, built with the message naming the reason, and the debug error
  carrying the status (one request and no sleep when \<open>k = 0\<close>). If request \<open>k\<close> responds,
  the response is validated after the same requests and delays. If the third request also
  fails with a transient error, the call has made 3 requests, slept 1000 and 2000 ms, and
  returns the local fallback hint. No call makes more than 3 requests.
\<close>

theorem transport_retry_policy:
  assumes k: "k < 3" and prior: "\<forall>i<k. transient (transport i)"
  shows "(\<forall>err. transport k = Rejected err \<and> (isQuota err \<or> isOverloaded err) \<longrightarrow>
            getStrategicHint env transport validTargets =
              \<lparr> response =
                  \<lparr> hint = getBestLocalTarget env validTargets
                             (if isOverloaded err
                              then warningSign @ '' Service Busy: Using Local Strategy''
                              else warningSign @ '' Offline Mode: Quota Exceeded''),
                    debug = \<lparr> dbg_rawResponse = [],
                              dbg_error = Some (statusText (statusOf err) @ '': Service Unavailable'') \<rparr> \<rparr>,
                attempts = k + 1, sleeps = take k [1000, 2000] \<rparr>)
     \<and> (\<forall>text. transport k = Responded text \<longrightarrow>
            getStrategicHint env transport validTargets =
              \<lparr> response = validateResponse env validTargets text,
                attempts = k + 1, sleeps = take k [1000, 2000] \<rparr>)
     \<and> (\<forall>err. k = 2 \<and> transport k = Rejected err \<and> \<not> isQuota err \<and> \<not> isOverloaded err \<longrightarrow>
            getStrategicHint env transport validTargets =
              \<lparr> response =
                  \<lparr> hint = getBestLocalTarget env validTargets ''AI Service Unreachable'',
                    debug = \<lparr> dbg_rawResponse = [],
                              dbg_error = Some (if err_message err \<noteq> [] then err_message err
                                                else ''Unknown API Error'') \<rparr> \<rparr>,
                attempts = 3, sleeps = [1000, 2000] \<rparr>)
     \<and> attempts (getStrategicHint env transport validTargets) \<le> 3"
proof -
  note start = retryLoop_after_transients[OF k prior]
  have kr: "k < retries" using k by (simp add: retries_def)
  have issue: "\<forall>err. transport k = Rejected err \<and> (isQuota err \<or> isOverloaded err) \<longrightarrow>
            getStrategicHint env transport validTargets =
              \<lparr> response =
                  \<lparr> hint = getBestLocalTarget env validTargets
                             (if isOverloaded err
                              then warningSign @ '' Service Busy: Using Local Strategy''
                              else warningSign @ '' Offline Mode: Quota Exceeded''),
                    debug = \<lparr> dbg_rawResponse = [],
                              dbg_error = Some (statusText (statusOf err) @ '': Service Unavailable'') \<rparr> \<rparr>,
                attempts = k + 1, sleeps = take k [1000, 2000] \<rparr>"
  proof (intro allI impI)
    fix err assume a: "transport k = Rejected err \<and> (isQuota err \<or> isOverloaded err)"
    then have "retryLoop transport k (1000 * 2 ^ k) (take k [1000, 2000])
                 = ServiceIssue err (k + 1) (take k [1000, 2000])"
      using kr by (subst retryLoop.simps) simp
    with start show "getStrategicHint env transport validTargets =
              \<lparr> response =
                  \<lparr> hint = getBestLocalTarget env validTargets
                             (if isOverloaded err
                              then warningSign @ '' Service Busy: Using Local Strategy''
                              else warningSign @ '' Offline Mode: Quota Exceeded''),
                    debug = \<lparr> dbg_rawResponse = [],
                              dbg_error = Some (statusText (statusOf err) @ '': Service Unavailable'') \<rparr> \<rparr>,
                attempts = k + 1, sleeps = take k [1000, 2000] \<rparr>"
      by (simp add: getStrategicHint_def serviceIssueResponse_def)
  qed
  have ok: "\<forall>text. transport k = Responded text \<longrightarrow>
            getStrategicHint env transport validTargets =
              \<lparr> response = validateResponse env validTargets text,
                attempts = k + 1, sleeps = take k [1000, 2000] \<rparr>"
  proof (intro allI impI)
    fix reply assume a: "transport k = Responded reply"
    then have "retryLoop transport k (1000 * 2 ^ k) (take k [1000, 2000])
                 = GotResponse reply (k + 1) (take k [1000, 2000])"
      using kr by (subst retryLoop.simps) simp
    with start show "getStrategicHint env transport validTargets =
              \<lparr> response = validateResponse env validTargets reply,
                attempts = k + 1, sleeps = take k [1000, 2000] \<rparr>"
      by (simp add: getStrategicHint_def)
  qed
  have last: "\<forall>err. k = 2 \<and> transport k = Rejected err \<and> \<not> isQuota err \<and> \<not> isOverloaded err \<longrightarrow>
            getStrategicHint env transport validTargets =
              \<lparr> response =
                  \<lparr> hint = getBestLocalTarget env validTargets ''AI Service Unreachable'',
                    debug = \<lparr> dbg_rawResponse = [],
                              dbg_error = Some (if err_message err \<noteq> [] then err_message err
                                                else ''Unknown API Error'') \<rparr> \<rparr>,
                attempts = 3, sleeps = [1000, 2000] \<rparr>"
  proof (intro allI impI)
    fix err assume a: "k = 2 \<and> transport k = Rejected err \<and> \<not> isQuota err \<and> \<not> isOverloaded err"
    then have k2: "k = 2" and rej: "transport 2 = Rejected err"
      and nq: "\<not> isQuota err" "\<not> isOverloaded err" by auto
    have "retryLoop transport 2 (1000 * 2 ^ 2) (take 2 [1000, 2000])
                 = Thrown err (2 + 1) (take 2 [1000, 2000])"
      using rej nq by (subst retryLoop.simps) (simp add: retries_def)
    then have "retryLoop transport k (1000 * 2 ^ k) (take k [1000, 2000])
                 = Thrown err (k + 1) (take k [1000, 2000])"
      using k2 by simp
    with start a show "getStrategicHint env transport validTargets =
              \<lparr> response =
                  \<lparr> hint = getBestLocalTarget env validTargets ''AI Service Unreachable'',
                    debug = \<lparr> dbg_rawResponse = [],
                              dbg_error = Some (if err_message err \<noteq> [] then err_message err
                                                else ''Unknown API Error'') \<rparr> \<rparr>,
                attempts = 3, sleeps = [1000, 2000] \<rparr>"
      by (simp add: getStrategicHint_def unreachableResponse_def)
  qed
  have bound: "attempts (getStrategicHint env transport validTargets) \<le> 3"
    using retryLoop_bounded[of 0 transport 1000 "[]"]
    by (simp add: attempts_getStrategicHint retries_def)
  from issue ok last bound show ?thesis by blast
qed

theorem transport_retry_policy_witness:
  "attempts (getStrategicHint (stubEnv noMessageDoc) (\<lambda>i. Rejected quotaError) exampleTargets) = 1
   \<and> sleeps (getStrategicHint (stubEnv noMessageDoc) (\<lambda>i. Rejected quotaError) exampleTargets) = []
   \<and> dbg_error (debug (response (getStrategicHint (stubEnv noMessageDoc) (\<lambda>i. Rejected quotaError) exampleTargets)))
        = Some ''429: Service Unavailable''
   \<and> hint (response (getStrategicHint (stubEnv noMessageDoc) (\<lambda>i. Rejected quotaError) []))
        = getBestLocalTarget (stubEnv noMessageDoc) [] (warningSign @ '' Offline Mode: Quota Exceeded'')
   \<and> attempts (getStrategicHint (stubEnv noMessageDoc) (\<lambda>i. Rejected networkError) exampleTargets) = 3
   \<and> sleeps (getStrategicHint (stubEnv noMessageDoc) (\<lambda>i. Rejected networkError) exampleTargets) = [1000, 2000]"
proof -
  have q: "isQuota quotaError \<or> isOverloaded quotaError"
    by (simp add: isQuota_def statusOf_def quotaError_def)
  have no: "\<not> isOverloaded quotaError" by code_simp
  have st: "statusText (statusOf quotaError) @ '': Service Unavailable'' = ''429: Service Unavailable''"
    by code_simp
  have tr: "\<not> isQuota networkError \<and> \<not> isOverloaded networkError" by code_simp
  have k0: "(0::nat) < 3" by simp
  have p0: "\<forall>i<(0::nat). transient ((\<lambda>i. Rejected quotaError) i)" by simp
  note r0 = transport_retry_policy[OF k0 p0, of "stubEnv noMessageDoc" exampleTargets]
  note r0e = transport_retry_policy[OF k0 p0, of "stubEnv noMessageDoc" "[]"]
  have k2: "(2::nat) < 3" by simp
  have p2: "\<forall>i<(2::nat). transient ((\<lambda>i. Rejected networkError) i)"
    using tr by (simp add: transient_def)
  note r2 = transport_retry_policy[OF k2 p2, of "stubEnv noMessageDoc" exampleTargets]
  from r0 q have a: "getStrategicHint (stubEnv noMessageDoc) (\<lambda>i. Rejected quotaError) exampleTargets =
              \<lparr> response =
                  \<lparr> hint = getBestLocalTarget (stubEnv noMessageDoc) exampleTargets
                             (if isOverloaded quotaError
                              then warningSign @ '' Service Busy: Using Local Strategy''
                              else warningSign @ '' Offline Mode: Quota Exceeded''),
                    debug = \<lparr> dbg_rawResponse = [],
                              dbg_error = Some (statusText (statusOf quotaError) @ '': Service Unavailable'') \<rparr> \<rparr>,
                attempts = 0 + 1, sleeps = take 0 [1000, 2000] \<rparr>"
    by blast
  from r0e q have b: "getStrategicHint (stubEnv noMessageDoc) (\<lambda>i. Rejected quotaError) [] =
              \<lparr> response =
                  \<lparr> hint = getBestLocalTarget (stubEnv noMessageDoc) []
                             (if isOverloaded quotaError
                              then warningSign @ '' Service Busy: Using Local Strategy''
                              else warningSign @ '' Offline Mode: Quota Exceeded''),
                    debug = \<lparr> dbg_rawResponse = [],
                              dbg_error = Some (statusText (statusOf quotaError) @ '': Service Unavailable'') \<rparr> \<rparr>,
                attempts = 0 + 1, sleeps = take 0 [1000, 2000] \<rparr>"
    by blast
  from r2 tr have c: "getStrategicHint (stubEnv noMessageDoc) (\<lambda>i. Rejected networkError) exampleTargets =
              \<lparr> response =
                  \<lparr> hint = getBestLocalTarget (stubEnv noMessageDoc) exampleTargets ''AI Service Unreachable'',
                    debug = \<lparr> dbg_rawResponse = [],
                              dbg_error = Some (if err_message networkError \<noteq> [] then err_message networkError
                                                else ''Unknown API Error'') \<rparr> \<rparr>,
                attempts = 3, sleeps = [1000, 2000] \<rparr>"
    by blast
  show ?thesis
    unfolding a b c using no st by simp
qed

text \<open>
  Claim C4 requires \<open>message\<close> for a reply to be valid. The code does not: a reply with
  \<open>recommendedColor\<close>, \<open>targetRow\<close> and \<open>targetCol\<close> but no \<open>message\<close> is accepted and
  surfaced with the default message, without an error reason.
\<close>

theorem missing_message_is_accepted:
  "getProp noMessageDoc ''message'' = None
   \<and> validateResponse (stubEnv noMessageDoc) [] (Some ''reply'') =
       \<lparr> hint = \<lparr> h_message = JStr ''Good shot available!'', h_rationale = None,
                  h_targetRow = Some (Finite 1), h_targetCol = Some (Finite 2),
                  h_recommendedColor = Some ''red'' \<rparr>,
         debug = \<lparr> dbg_rawResponse = ''reply'', dbg_error = None \<rparr> \<rparr>
   \<and> h_targetRow (getBestLocalTarget (stubEnv noMessageDoc) [] ''AI returned invalid coordinates'') = None"
  by (simp add: validateResponse_def bodyOf_def stubEnv_def noMessageDoc_def orElse_def
      asciiLower_def getBestLocalTarget_def Let_def)

text \<open>
  Claim C4, amended. A reply that fails to parse is replaced by the local fallback hint with
  the reason \<open>JSON Parse Error\<close>; one that parses to a document lacking \<open>targetRow\<close>,
  \<open>targetCol\<close> or \<open>recommendedColor\<close> is replaced by the local fallback hint with the
  reason \<open>Invalid Coordinates in JSON\<close>. A reply is surfaced as the hint, with no error
  reason, exactly when it is acceptable: it parses to a document whose \<open>targetRow\<close> and
  \<open>targetCol\<close> convert to numbers and whose \<open>recommendedColor\<close> is a non-empty string; a
  missing or empty \<open>message\<close> is then replaced by \<open>Good shot available!\<close>. Every reply that
  is not acceptable yields a local fallback hint.
\<close>

theorem response_validation:
  "(\<forall>emsg. parseJSON env (bodyOf reply) = Inl emsg \<longrightarrow>
       validateResponse env validTargets reply =
         \<lparr> hint = getBestLocalTarget env validTargets ''AI response parse error'',
           debug = \<lparr> dbg_rawResponse = bodyOf reply,
                     dbg_error = Some (''JSON Parse Error: '' @ emsg) \<rparr> \<rparr>)
   \<and> (\<forall>doc. parseJSON env (bodyOf reply) = Inr doc \<and> doc \<noteq> JNull
          \<and> (getProp doc ''targetRow'' = None \<or> getProp doc ''targetCol'' = None
               \<or> getProp doc ''recommendedColor'' = None) \<longrightarrow>
       validateResponse env validTargets reply =
         \<lparr> hint = getBestLocalTarget env validTargets ''AI returned invalid coordinates'',
           debug = \<lparr> dbg_rawResponse = bodyOf reply,
                     dbg_error = Some ''Invalid Coordinates in JSON'' \<rparr> \<rparr>)
   \<and> (\<forall>doc colour. parseJSON env (bodyOf reply) = Inr doc \<and> doc \<noteq> JNull
          \<and> Number env (getProp doc ''targetRow'') \<noteq> NaN
          \<and> Number env (getProp doc ''targetCol'') \<noteq> NaN
          \<and> getProp doc ''recommendedColor'' = Some (JStr colour) \<and> colour \<noteq> [] \<longrightarrow>
       validateResponse env validTargets reply =
         \<lparr> hint = \<lparr> h_message = orElse (getProp doc ''message'') (JStr ''Good shot available!''),
                    h_rationale = getProp doc ''rationale'',
                    h_targetRow = Some (Number env (getProp doc ''targetRow'')),
                    h_targetCol = Some (Number env (getProp doc ''targetCol'')),
                    h_recommendedColor = Some (toLowerCase env colour) \<rparr>,
           debug = \<lparr> dbg_rawResponse = bodyOf reply, dbg_error = None \<rparr> \<rparr>)
   \<and> (dbg_error (debug (validateResponse env validTargets reply)) = None
        \<longleftrightarrow> acceptable env reply)
   \<and> (\<not> acceptable env reply \<longrightarrow>
        (\<exists>m. hint (validateResponse env validTargets reply) = getBestLocalTarget env validTargets m))"
proof (intro conjI allI impI)
  fix emsg assume "parseJSON env (bodyOf reply) = Inl emsg"
  from validate_parse_error[OF this]
  show "validateResponse env validTargets reply =
         \<lparr> hint = getBestLocalTarget env validTargets ''AI response parse error'',
           debug = \<lparr> dbg_rawResponse = bodyOf reply,
                     dbg_error = Some (''JSON Parse Error: '' @ emsg) \<rparr> \<rparr>"
    by (simp add: parseErrorResponse_def)
next
  fix doc assume a: "parseJSON env (bodyOf reply) = Inr doc \<and> doc \<noteq> JNull
          \<and> (getProp doc ''targetRow'' = None \<or> getProp doc ''targetCol'' = None
               \<or> getProp doc ''recommendedColor'' = None)"
  then have "Number env (getProp doc ''targetRow'') = NaN \<or> Number env (getProp doc ''targetCol'') = NaN
     \<or> \<not> truthy (getProp doc ''recommendedColor'')"
    by auto
  with a validate_invalid[of env reply doc validTargets]
  show "validateResponse env validTargets reply =
         \<lparr> hint = getBestLocalTarget env validTargets ''AI returned invalid coordinates'',
           debug = \<lparr> dbg_rawResponse = bodyOf reply,
                     dbg_error = Some ''Invalid Coordinates in JSON'' \<rparr> \<rparr>"
    by (simp add: invalidResponse_def)
next
  fix doc colour assume a: "parseJSON env (bodyOf reply) = Inr doc \<and> doc \<noteq> JNull
          \<and> Number env (getProp doc ''targetRow'') \<noteq> NaN
          \<and> Number env (getProp doc ''targetCol'') \<noteq> NaN
          \<and> getProp doc ''recommendedColor'' = Some (JStr colour) \<and> colour \<noteq> []"
  then show "validateResponse env validTargets reply =
         \<lparr> hint = \<lparr> h_message = orElse (getProp doc ''message'') (JStr ''Good shot available!''),
                    h_rationale = getProp doc ''rationale'',
                    h_targetRow = Some (Number env (getProp doc ''targetRow'')),
                    h_targetCol = Some (Number env (getProp doc ''targetCol'')),
                    h_recommendedColor = Some (toLowerCase env colour) \<rparr>,
           debug = \<lparr> dbg_rawResponse = bodyOf reply, dbg_error = None \<rparr> \<rparr>"
    using validate_valid[of env reply doc colour validTargets] by simp
next
  show "dbg_error (debug (validateResponse env validTargets reply)) = None
        \<longleftrightarrow> acceptable env reply"
  proof (cases rule: validate_cases[of env reply validTargets])
    case (unparsed emsg)
    then show ?thesis by (auto simp: parseErrorResponse_def acceptable_def)
  next
    case nulldoc
    then show ?thesis by (auto simp: parseErrorResponse_def acceptable_def)
  next
    case (invalid doc)
    then show ?thesis by (auto simp: invalidResponse_def acceptable_def)
  next
    case (notstring doc)
    then show ?thesis by (auto simp: parseErrorResponse_def acceptable_def)
  next
    case (valid doc colour)
    from validate_valid[OF valid, of validTargets] valid show ?thesis
      by (auto simp: acceptable_def)
  qed
next
  assume na: "\<not> acceptable env reply"
  show "\<exists>m. hint (validateResponse env validTargets reply) = getBestLocalTarget env validTargets m"
  proof (cases rule: validate_cases[of env reply validTargets])
    case (unparsed emsg)
    then show ?thesis by (auto simp: parseErrorResponse_def)
  next
    case nulldoc
    then show ?thesis by (auto simp: parseErrorResponse_def)
  next
    case (invalid doc)
    then show ?thesis by (auto simp: invalidResponse_def)
  next
    case (notstring doc)
    then show ?thesis by (auto simp: parseErrorResponse_def)
  next
    case (valid doc colour)
    with na show ?thesis by (auto simp: acceptable_def)
  qed
qed

theorem response_validation_witness:
  "validateResponse (stubEnv noMessageDoc) exampleTargets None =
     \<lparr> hint = getBestLocalTarget (stubEnv noMessageDoc) exampleTargets ''AI returned invalid coordinates'',
       debug = \<lparr> dbg_rawResponse = ''{}'', dbg_error = Some ''Invalid Coordinates in JSON'' \<rparr> \<rparr>
   \<and> h_message (hint (validateResponse (stubEnv noMessageDoc) exampleTargets (Some ''reply'')))
        = JStr ''Good shot available!''
   \<and> acceptable (stubEnv noMessageDoc) (Some ''reply'')
   \<and> \<not> acceptable (stubEnv noMessageDoc) None"
proof -
  note r1 = response_validation[of "stubEnv noMessageDoc" None exampleTargets]
  note r2 = response_validation[of "stubEnv noMessageDoc" "Some ''reply''" exampleTargets]
  have b1: "bodyOf None = ''{}''" and b2: "bodyOf (Some ''reply'') = ''reply''"
    by (simp_all add: bodyOf_def)
  have p1: "parseJSON (stubEnv noMessageDoc) (bodyOf None) = Inr (JObj []) \<and> JObj [] \<noteq> JNull
          \<and> (getProp (JObj []) ''targetRow'' = None \<or> getProp (JObj []) ''targetCol'' = None
               \<or> getProp (JObj []) ''recommendedColor'' = None)"
    by (simp add: b1 stubEnv_def)
  have p2: "parseJSON (stubEnv noMessageDoc) (bodyOf (Some ''reply'')) = Inr noMessageDoc
          \<and> noMessageDoc \<noteq> JNull
          \<and> Number (stubEnv noMessageDoc) (getProp noMessageDoc ''targetRow'') \<noteq> NaN
          \<and> Number (stubEnv noMessageDoc) (getProp noMessageDoc ''targetCol'') \<noteq> NaN
          \<and> getProp noMessageDoc ''recommendedColor'' = Some (JStr ''Red'') \<and> ''Red'' \<noteq> []"
    by (simp add: b2 stubEnv_def noMessageDoc_def)
  from r1 p1 have a: "validateResponse (stubEnv noMessageDoc) exampleTargets None =
     \<lparr> hint = getBestLocalTarget (stubEnv noMessageDoc) exampleTargets ''AI returned invalid coordinates'',
       debug = \<lparr> dbg_rawResponse = bodyOf None, dbg_error = Some ''Invalid Coordinates in JSON'' \<rparr> \<rparr>"
    by blast
  from r2 p2 have b: "validateResponse (stubEnv noMessageDoc) exampleTargets (Some ''reply'') =
         \<lparr> hint = \<lparr> h_message = orElse (getProp noMessageDoc ''message'') (JStr ''Good shot available!''),
                    h_rationale = getProp noMessageDoc ''rationale'',
                    h_targetRow = Some (Number (stubEnv noMessageDoc) (getProp noMessageDoc ''targetRow'')),
                    h_targetCol = Some (Number (stubEnv noMessageDoc) (getProp noMessageDoc ''targetCol'')),
                    h_recommendedColor = Some (toLowerCase (stubEnv noMessageDoc) ''Red'') \<rparr>,
           debug = \<lparr> dbg_rawResponse = bodyOf (Some ''reply''), dbg_error = None \<rparr> \<rparr>"
    by blast
  from r1 a have na: "\<not> acceptable (stubEnv noMessageDoc) None" by simp
  from r2 b have ac: "acceptable (stubEnv noMessageDoc) (Some ''reply'')" by simp
  have m: "h_message (hint (validateResponse (stubEnv noMessageDoc) exampleTargets (Some ''reply'')))
        = JStr ''Good shot available!''"
    unfolding b by (simp add: noMessageDoc_def orElse_def)
  from a b1 m ac na show ?thesis by simp
qed

text \<open>
  Claim C10. When a request responds (after transient failures only) with a document whose
  \<open>targetRow\<close> and \<open>targetCol\<close> convert to the numbers \<open>r\<close> and \<open>c\<close> and whose
  \<open>recommendedColor\<close> is a non-empty string, the hint returned carries \<open>r\<close> and \<open>c\<close>
  unchanged and the colour as \<open>toLowerCase\<close> of the language maps it, whatever they are:
  neither the palette nor the bounds of the grid are consulted.
\<close>

theorem advisor_hint_passed_through:
  assumes k: "k < 3" and prior: "\<forall>i<k. transient (transport i)"
    and reply: "transport k = Responded reply"
    and doc: "parseJSON env (bodyOf reply) = Inr doc" "doc \<noteq> JNull"
    and r: "Number env (getProp doc ''targetRow'') = r" "r \<noteq> NaN"
    and c: "Number env (getProp doc ''targetCol'') = c" "c \<noteq> NaN"
    and colour: "getProp doc ''recommendedColor'' = Some (JStr colour)" "colour \<noteq> []"
  shows "h_targetRow (hint (response (getStrategicHint env transport validTargets))) = Some r
     \<and> h_targetCol (hint (response (getStrategicHint env transport validTargets))) = Some c
     \<and> h_recommendedColor (hint (response (getStrategicHint env transport validTargets)))
          = Some (toLowerCase env colour)
     \<and> dbg_error (debug (response (getStrategicHint env transport validTargets))) = None"
proof -
  have kr: "k < retries" using k by (simp add: retries_def)
  have "retryLoop transport k (1000 * 2 ^ k) (take k [1000, 2000])
          = GotResponse reply (k + 1) (take k [1000, 2000])"
    using reply kr by (subst retryLoop.simps) simp
  with retryLoop_after_transients[OF k prior]
  have "response (getStrategicHint env transport validTargets) = validateResponse env validTargets reply"
    by (simp add: getStrategicHint_def)
  moreover have "validateResponse env validTargets reply =
       \<lparr> hint = \<lparr> h_message = orElse (getProp doc ''message'') (JStr ''Good shot available!''),
                  h_rationale = getProp doc ''rationale'',
                  h_targetRow = Some (Number env (getProp doc ''targetRow'')),
                  h_targetCol = Some (Number env (getProp doc ''targetCol'')),
                  h_recommendedColor = Some (toLowerCase env colour) \<rparr>,
         debug = \<lparr> dbg_rawResponse = bodyOf reply, dbg_error = None \<rparr> \<rparr>"
    using doc r c colour by (intro validate_valid) simp_all
  ultimately show ?thesis using r(1) c(1) by simp
qed

theorem advisor_hint_passed_through_witness:
  "h_targetRow (hint (response (getStrategicHint (stubEnv offBoardDoc) (\<lambda>i. Responded (Some ''reply'')) [])))
     = Some (Finite 99)
   \<and> h_targetCol (hint (response (getStrategicHint (stubEnv offBoardDoc) (\<lambda>i. Responded (Some ''reply'')) [])))
     = Some (Finite (- 5))
   \<and> h_recommendedColor (hint (response (getStrategicHint (stubEnv offBoardDoc) (\<lambda>i. Responded (Some ''reply'')) [])))
     = Some ''magenta''
   \<and> ''magenta'' \<notin> set (map colorKey [Red, Blue, Green, Yellow, Purple, Orange])
   \<and> (99::int) \<ge> MAX_ROWS_LIMIT + 5"
proof -
  have k: "(0::nat) < 3" by simp
  have prior: "\<forall>i<(0::nat). transient ((\<lambda>i. Responded (Some ''reply'')) i)" by simp
  have reply: "(\<lambda>i. Responded (Some ''reply'')) (0::nat) = Responded (Some ''reply'')" by simp
  have doc: "parseJSON (stubEnv offBoardDoc) (bodyOf (Some ''reply'')) = Inr offBoardDoc"
    "offBoardDoc \<noteq> JNull"
    by (simp_all add: stubEnv_def bodyOf_def offBoardDoc_def)
  have r: "Number (stubEnv offBoardDoc) (getProp offBoardDoc ''targetRow'') = Finite 99"
    "Finite 99 \<noteq> NaN"
    by (simp_all add: offBoardDoc_def)
  have c: "Number (stubEnv offBoardDoc) (getProp offBoardDoc ''targetCol'') = Finite (- 5)"
    "Finite (- 5) \<noteq> NaN"
    by (simp_all add: offBoardDoc_def)
  have colour: "getProp offBoardDoc ''recommendedColor'' = Some (JStr ''MAGENTA'')" "''MAGENTA'' \<noteq> []"
    by (simp_all add: offBoardDoc_def)
  have low: "toLowerCase (stubEnv offBoardDoc) ''MAGENTA'' = ''magenta''"
    by (simp add: stubEnv_def asciiLower_def)
  note t = advisor_hint_passed_through[where transport="\<lambda>i. Responded (Some ''reply'')" and k=0
      and env="stubEnv offBoardDoc" and reply="Some ''reply''" and doc=offBoardDoc
      and r="Finite 99" and c="Finite (- 5)" and colour="''MAGENTA''" and validTargets="[]",
      OF k prior reply doc r c colour]
  from t low show ?thesis by (simp add: MAX_ROWS_LIMIT_def)
qed

end
